theory Spec2Isabelle
  imports Main "HOL-Library.Word" "HOL-Library.AList"
begin

unbundle bit_operations_syntax

section \<open>Bucket page (storage/page/hash\_table\_bucket\_page.cpp)\<close>

text \<open>
  A bucket page holds two bitmaps, \<open>occupied_\<close> and \<open>readable_\<close>, stored as arrays of
  \<open>char\<close>, and the slot array \<open>array_\<close> of key/value pairs.  The bitmaps are lists of
  8-bit words, the slot array a list of pairs.  \<open>BUCKET_ARRAY_SIZE\<close> is a macro of the
  header, which is not part of the sources at hand: it is the declared length of the slot
  array, and the model reads it off the list.  \<open>CHAR_BIT_SIZE\<close>, from the same header, is
  the number of bits of a \<open>char\<close>.
\<close>

record ('k, 'v) bucket_page =
  occupied :: "8 word list"
  readable :: "8 word list"
  array :: "('k \<times> 'v) list"

definition BUCKET_ARRAY_SIZE :: "('k, 'v) bucket_page \<Rightarrow> nat" where
  "BUCKET_ARRAY_SIZE b = length (array b)"

definition CHAR_BIT_SIZE :: nat where
  "CHAR_BIT_SIZE = 8"

text \<open>The length of a bitmap for \<open>n\<close> slots, \<open>(n - 1) / 8 + 1\<close> in the header.\<close>

definition bitmap_len :: "nat \<Rightarrow> nat" where
  "bitmap_len n = (n - 1) div CHAR_BIT_SIZE + 1"

text \<open>A page whose three arrays have the declared lengths.\<close>

definition wf_bucket :: "('k, 'v) bucket_page \<Rightarrow> bool" where
  "wf_bucket b \<longleftrightarrow>
     length (occupied b) = bitmap_len (BUCKET_ARRAY_SIZE b) \<and>
     length (readable b) = bitmap_len (BUCKET_ARRAY_SIZE b)"

text \<open>The page as the buffer pool hands it out: every byte zero.\<close>

definition zero_bucket :: "nat \<Rightarrow> ('k::zero, 'v::zero) bucket_page" where
  "zero_bucket n =
     \<lparr>occupied = replicate (bitmap_len n) 0,
      readable = replicate (bitmap_len n) 0,
      array = replicate n (0, 0)\<rparr>"

definition IsOccupied :: "('k, 'v) bucket_page \<Rightarrow> nat \<Rightarrow> bool" where
  "IsOccupied b bucket_idx =
     (let char_pos = bucket_idx div CHAR_BIT_SIZE; bit_pos = bucket_idx mod CHAR_BIT_SIZE
      in (drop_bit bit_pos (occupied b ! char_pos)) AND 1 = 1)"

definition SetOccupied :: "('k, 'v) bucket_page \<Rightarrow> nat \<Rightarrow> ('k, 'v) bucket_page" where
  "SetOccupied b bucket_idx =
     (let char_pos = bucket_idx div CHAR_BIT_SIZE; bit_pos = bucket_idx mod CHAR_BIT_SIZE
      in b\<lparr>occupied := (occupied b)[char_pos := (occupied b ! char_pos) OR push_bit bit_pos 1]\<rparr>)"

definition IsReadable :: "('k, 'v) bucket_page \<Rightarrow> nat \<Rightarrow> bool" where
  "IsReadable b bucket_idx =
     (let char_pos = bucket_idx div CHAR_BIT_SIZE; bit_pos = bucket_idx mod CHAR_BIT_SIZE
      in (drop_bit bit_pos (readable b ! char_pos)) AND 1 = 1)"

definition SetReadable :: "('k, 'v) bucket_page \<Rightarrow> nat \<Rightarrow> ('k, 'v) bucket_page" where
  "SetReadable b bucket_idx =
     (let char_pos = bucket_idx div CHAR_BIT_SIZE; bit_pos = bucket_idx mod CHAR_BIT_SIZE
      in b\<lparr>readable := (readable b)[char_pos := (readable b ! char_pos) OR push_bit bit_pos 1]\<rparr>)"

definition RemoveAt :: "('k, 'v) bucket_page \<Rightarrow> nat \<Rightarrow> ('k, 'v) bucket_page" where
  "RemoveAt b bucket_idx =
     (let char_pos = bucket_idx div CHAR_BIT_SIZE; bit_pos = bucket_idx mod CHAR_BIT_SIZE
      in b\<lparr>readable := (readable b)[char_pos := (readable b ! char_pos) AND NOT (push_bit bit_pos 1)]\<rparr>)"

definition KeyAt :: "('k, 'v) bucket_page \<Rightarrow> nat \<Rightarrow> 'k" where
  "KeyAt b bucket_idx = fst (array b ! bucket_idx)"

definition ValueAt :: "('k, 'v) bucket_page \<Rightarrow> nat \<Rightarrow> 'v" where
  "ValueAt b bucket_idx = snd (array b ! bucket_idx)"

text \<open>
  \<open>GetValue\<close>: the loop runs over the slots, leaves at the first slot that is not
  occupied, and pushes the value of every readable slot whose key compares equal.  The
  comparator returns an integer, 0 for equal keys.  The result vector is passed in by
  pointer: the model takes it and returns it with the flag \<open>!result->empty()\<close>.
\<close>

function GetValue_loop ::
  "('k, 'v) bucket_page \<Rightarrow> 'k \<Rightarrow> ('k \<Rightarrow> 'k \<Rightarrow> int) \<Rightarrow> nat \<Rightarrow> 'v list \<Rightarrow> 'v list" where
  "GetValue_loop b key cmp bucket_idx result =
     (if bucket_idx < BUCKET_ARRAY_SIZE b then
        if \<not> IsOccupied b bucket_idx then result
        else GetValue_loop b key cmp (bucket_idx + 1)
               (if IsReadable b bucket_idx \<and> cmp (fst (array b ! bucket_idx)) key = 0
                then result @ [snd (array b ! bucket_idx)] else result)
      else result)"
  by pat_completeness auto
termination
  by (relation "measure (\<lambda>(b, key, cmp, bucket_idx, result). BUCKET_ARRAY_SIZE b - bucket_idx)") auto

definition GetValue ::
  "('k, 'v) bucket_page \<Rightarrow> 'k \<Rightarrow> ('k \<Rightarrow> 'k \<Rightarrow> int) \<Rightarrow> 'v list \<Rightarrow> bool \<times> 'v list" where
  "GetValue b key cmp result =
     (let result' = GetValue_loop b key cmp 0 result in (result' \<noteq> [], result'))"

text \<open>
  \<open>Insert\<close>: the loop returns false at a readable slot holding the same pair, and
  remembers the first slot that is not readable.  \<open>free_slot\<close> is a \<open>size_t\<close> with the
  sentinel \<open>-1\<close>: here an option, \<open>None\<close> for the sentinel.  The loop's result is \<open>None\<close>
  when it returned false, and the free slot otherwise.
\<close>

function Insert_loop ::
  "('k, 'v) bucket_page \<Rightarrow> 'k \<Rightarrow> 'v \<Rightarrow> ('k \<Rightarrow> 'k \<Rightarrow> int) \<Rightarrow> nat \<Rightarrow> nat option \<Rightarrow> nat option option" where
  "Insert_loop b key val cmp i free_slot =
     (if i < BUCKET_ARRAY_SIZE b then
        if IsReadable b i then
          if cmp (fst (array b ! i)) key = 0 \<and> snd (array b ! i) = val then None
          else Insert_loop b key val cmp (i + 1) free_slot
        else if free_slot = None then Insert_loop b key val cmp (i + 1) (Some i)
        else Insert_loop b key val cmp (i + 1) free_slot
      else Some free_slot)"
  by pat_completeness auto
termination
  by (relation "measure (\<lambda>(b, key, val, cmp, i, free_slot). BUCKET_ARRAY_SIZE b - i)") auto

definition Insert ::
  "('k, 'v) bucket_page \<Rightarrow> 'k \<Rightarrow> 'v \<Rightarrow> ('k \<Rightarrow> 'k \<Rightarrow> int) \<Rightarrow> bool \<times> ('k, 'v) bucket_page" where
  "Insert b key val cmp =
     (case Insert_loop b key val cmp 0 None of
        None \<Rightarrow> (False, b)
      | Some None \<Rightarrow> (False, b)
      | Some (Some free_slot) \<Rightarrow>
          (True, SetReadable (SetOccupied (b\<lparr>array := (array b)[free_slot := (key, val)]\<rparr>) free_slot) free_slot))"

text \<open>
  \<open>Remove\<close>: leaves at the first slot that is not occupied; at the first readable slot
  holding the pair it overwrites the slot with \<open>MappingType()\<close> and clears the readable
  bit.
\<close>

function Remove_loop ::
  "('k::zero, 'v::zero) bucket_page \<Rightarrow> 'k \<Rightarrow> 'v \<Rightarrow> ('k \<Rightarrow> 'k \<Rightarrow> int) \<Rightarrow> nat \<Rightarrow> bool \<times> ('k, 'v) bucket_page" where
  "Remove_loop b key val cmp bucket_idx =
     (if bucket_idx < BUCKET_ARRAY_SIZE b then
        if \<not> IsOccupied b bucket_idx then (False, b)
        else if IsReadable b bucket_idx \<and> IsOccupied b bucket_idx \<and>
                cmp (fst (array b ! bucket_idx)) key = 0 \<and> snd (array b ! bucket_idx) = val
        then (True, RemoveAt (b\<lparr>array := (array b)[bucket_idx := (0, 0)]\<rparr>) bucket_idx)
        else Remove_loop b key val cmp (bucket_idx + 1)
      else (False, b))"
  by pat_completeness auto
termination
  by (relation "measure (\<lambda>(b, key, val, cmp, bucket_idx). BUCKET_ARRAY_SIZE b - bucket_idx)") auto

definition Remove ::
  "('k::zero, 'v::zero) bucket_page \<Rightarrow> 'k \<Rightarrow> 'v \<Rightarrow> ('k \<Rightarrow> 'k \<Rightarrow> int) \<Rightarrow> bool \<times> ('k, 'v) bucket_page" where
  "Remove b key val cmp = Remove_loop b key val cmp 0"

text \<open>
  \<open>NumReadable\<close> counts the set bits of every byte of the readable bitmap with the loop
  \<open>while (v) { v &= (v - 1); counter++; }\<close>.
\<close>

function count_bits :: "8 word \<Rightarrow> nat" where
  "count_bits v = (if v = 0 then 0 else Suc (count_bits (v AND (v - 1))))"
  by pat_completeness auto
termination
proof (relation "measure unat")
  fix v :: "8 word"
  assume nz: "v \<noteq> 0"
  have "\<not> v < 1" using nz by simp
  then have "\<not> v \<le> v - 1" using sub_wrap [of v 1] by simp
  then have "v - 1 < v" by simp
  moreover have "v AND (v - 1) \<le> v - 1" by (rule word_and_le1)
  ultimately have "v AND (v - 1) < v" by simp
  then show "(v AND (v - 1), v) \<in> measure unat" by (simp add: word_less_nat_alt)
qed simp

definition NumReadable :: "('k, 'v) bucket_page \<Rightarrow> nat" where
  "NumReadable b = fold (\<lambda>v counter. counter + count_bits v) (readable b) 0"

definition IsFull :: "('k, 'v) bucket_page \<Rightarrow> bool" where
  "IsFull b \<longleftrightarrow> NumReadable b = BUCKET_ARRAY_SIZE b"

definition IsEmpty :: "('k, 'v) bucket_page \<Rightarrow> bool" where
  "IsEmpty b \<longleftrightarrow> NumReadable b = 0"

text \<open>
  \<open>CopyMappingsAndResetPage\<close> pushes the readable pairs up to the first slot that is
  not occupied, then clears the three arrays with \<open>memset\<close>.
\<close>

function CopyMappings_loop ::
  "('k, 'v) bucket_page \<Rightarrow> nat \<Rightarrow> ('k \<times> 'v) list \<Rightarrow> ('k \<times> 'v) list" where
  "CopyMappings_loop b bucket_idx result =
     (if bucket_idx < BUCKET_ARRAY_SIZE b then
        if \<not> IsOccupied b bucket_idx then result
        else CopyMappings_loop b (bucket_idx + 1)
               (if IsReadable b bucket_idx then result @ [array b ! bucket_idx] else result)
      else result)"
  by pat_completeness auto
termination
  by (relation "measure (\<lambda>(b, bucket_idx, result). BUCKET_ARRAY_SIZE b - bucket_idx)") auto

definition CopyMappingsAndResetPage ::
  "('k::zero, 'v::zero) bucket_page \<Rightarrow> ('k \<times> 'v) list \<Rightarrow> ('k \<times> 'v) list \<times> ('k, 'v) bucket_page" where
  "CopyMappingsAndResetPage b result =
     (CopyMappings_loop b 0 result,
      \<lparr>occupied = replicate (length (occupied b)) 0,
       readable = replicate (length (readable b)) 0,
       array = replicate (length (array b)) (0, 0)\<rparr>)"

function IsRepeat_loop ::
  "('k, 'v) bucket_page \<Rightarrow> 'k \<Rightarrow> 'v \<Rightarrow> ('k \<Rightarrow> 'k \<Rightarrow> int) \<Rightarrow> nat \<Rightarrow> bool" where
  "IsRepeat_loop b key val cmp bucket_idx =
     (if bucket_idx < BUCKET_ARRAY_SIZE b then
        if \<not> IsOccupied b bucket_idx then False
        else if IsReadable b bucket_idx \<and>
                cmp (fst (array b ! bucket_idx)) key = 0 \<and> val = snd (array b ! bucket_idx)
        then True
        else IsRepeat_loop b key val cmp (bucket_idx + 1)
      else False)"
  by pat_completeness auto
termination
  by (relation "measure (\<lambda>(b, key, val, cmp, bucket_idx). BUCKET_ARRAY_SIZE b - bucket_idx)") auto

definition IsRepeat :: "('k, 'v) bucket_page \<Rightarrow> 'k \<Rightarrow> 'v \<Rightarrow> ('k \<Rightarrow> 'k \<Rightarrow> int) \<Rightarrow> bool" where
  "IsRepeat b key val cmp = IsRepeat_loop b key val cmp 0"

declare GetValue_loop.simps [simp del]
declare Insert_loop.simps [simp del]
declare Remove_loop.simps [simp del]
declare CopyMappings_loop.simps [simp del]
declare IsRepeat_loop.simps [simp del]
declare count_bits.simps [simp del]

section \<open>LRU replacer (buffer/lru\_replacer.cpp)\<close>

text \<open>
  The replacer keeps the list \<open>frame_id_list_\<close> in eviction order and the map
  \<open>location_map_\<close> from a frame to its list position.  The map holds exactly the frames
  of the list and serves only to erase in constant time, so the model is the list.
  \<open>Victim\<close> returns false on the empty list and leaves \<open>*frame_id\<close> as it was: \<open>None\<close>.
\<close>

type_synonym frame_id_t = nat

definition Victim :: "frame_id_t list \<Rightarrow> frame_id_t option \<times> frame_id_t list" where
  "Victim frame_id_list =
     (case frame_id_list of [] \<Rightarrow> (None, []) | frame_id # rest \<Rightarrow> (Some frame_id, rest))"

definition Pin :: "frame_id_t list \<Rightarrow> frame_id_t \<Rightarrow> frame_id_t list" where
  "Pin frame_id_list frame_id =
     (if frame_id_list \<noteq> [] then
        if frame_id \<in> set frame_id_list then remove1 frame_id frame_id_list else frame_id_list
      else frame_id_list)"

definition Unpin :: "frame_id_t list \<Rightarrow> frame_id_t \<Rightarrow> frame_id_t list" where
  "Unpin frame_id_list frame_id =
     (let found = (frame_id \<in> set frame_id_list)
      in if \<not> found then frame_id_list @ [frame_id] else frame_id_list)"

definition Size :: "frame_id_t list \<Rightarrow> nat" where
  "Size frame_id_list = length frame_id_list"

section \<open>Buffer pool instance (buffer/buffer\_pool\_manager\_instance.cpp)\<close>

text \<open>
  \<open>page_id_t\<close> is a 32-bit integer, \<open>INVALID_PAGE_ID\<close> is \<open>-1\<close>.  A \<open>Page\<close> carries its
  bytes and the metadata \<open>page_id_\<close>, \<open>pin_count_\<close> and \<open>is_dirty_\<close>; a page that was never
  used has the invalid identifier, pin count 0 and is clean.  The bytes \<open>data_\<close> of a
  page are a function from the offset in the page to the byte there, so that \<open>ResetMemory\<close>,
  which zeroes all \<open>PAGE_SIZE\<close> bytes, gives the function that is 0 everywhere.  The disk
  manager is shared between the instances of a parallel pool, so the disk is passed to
  every operation and returned by it: a function from page identifiers to the bytes last
  written there.
\<close>

type_synonym page_id_t = "32 word"

definition INVALID_PAGE_ID :: page_id_t where
  "INVALID_PAGE_ID = - 1"

type_synonym page_bytes = "nat \<Rightarrow> 8 word"

record Page =
  data :: page_bytes
  page_id :: page_id_t
  pin_count :: int
  is_dirty :: bool

definition zero_data :: page_bytes where
  "zero_data = (\<lambda>offset. 0)"

definition new_Page :: Page where
  "new_Page = \<lparr>data = zero_data, page_id = INVALID_PAGE_ID, pin_count = 0, is_dirty = False\<rparr>"

definition ResetMemory :: "Page \<Rightarrow> Page" where
  "ResetMemory page = page\<lparr>data := zero_data\<rparr>"

type_synonym disk = "page_id_t \<Rightarrow> page_bytes"

definition WritePage :: "disk \<Rightarrow> page_id_t \<Rightarrow> page_bytes \<Rightarrow> disk" where
  "WritePage d p bytes = d(p := bytes)"

definition ReadPage :: "disk \<Rightarrow> page_id_t \<Rightarrow> page_bytes" where
  "ReadPage d p = d p"

record BufferPoolManagerInstance =
  pool_size :: nat
  num_instances :: nat
  instance_index :: nat
  next_page_id :: page_id_t
  pages :: "Page list"
  page_table :: "page_id_t \<rightharpoonup> frame_id_t"
  free_list :: "frame_id_t list"
  replacer :: "frame_id_t list"

text \<open>
  The constructor: the two \<open>BUSTUB_ASSERT\<close>s abort the program (\<open>None\<close>); otherwise
  every frame goes to the free list in increasing order and the allocation counter starts
  at the instance's index.
\<close>

definition new_BufferPoolManagerInstance :: "nat \<Rightarrow> nat \<Rightarrow> nat \<Rightarrow> BufferPoolManagerInstance option" where
  "new_BufferPoolManagerInstance pool_sz num_inst inst_index =
     (if \<not> (num_inst > 0) then None
      else if \<not> (inst_index < num_inst) then None
      else Some \<lparr>pool_size = pool_sz, num_instances = num_inst, instance_index = inst_index,
                 next_page_id = word_of_nat inst_index,
                 pages = replicate pool_sz new_Page,
                 page_table = Map.empty,
                 free_list = [0..<pool_sz],
                 replacer = []\<rparr>)"

text \<open>
  \<open>ValidatePageId\<close> asserts \<open>page_id % num_instances_ == instance_index_\<close>, computed on
  unsigned 32-bit values.  \<open>AllocatePage\<close> hands out the counter and advances it by the
  number of instances; a failed assertion aborts the program (\<open>None\<close>).
\<close>

definition ValidatePageId :: "BufferPoolManagerInstance \<Rightarrow> page_id_t \<Rightarrow> bool" where
  "ValidatePageId s p \<longleftrightarrow> unat p mod num_instances s = instance_index s"

definition AllocatePage :: "BufferPoolManagerInstance \<Rightarrow> (page_id_t \<times> BufferPoolManagerInstance) option" where
  "AllocatePage s =
     (let next_pid = next_page_id s;
          s' = s\<lparr>next_page_id := next_page_id s + word_of_nat (num_instances s)\<rparr>
      in if ValidatePageId s' next_pid then Some (next_pid, s') else None)"

text \<open>\<open>DeallocatePage\<close> is an empty function of the header.\<close>

definition DeallocatePage :: "BufferPoolManagerInstance \<Rightarrow> page_id_t \<Rightarrow> BufferPoolManagerInstance" where
  "DeallocatePage s p = s"

definition FlushPgImp ::
  "BufferPoolManagerInstance \<Rightarrow> disk \<Rightarrow> page_id_t \<Rightarrow> bool \<times> BufferPoolManagerInstance \<times> disk" where
  "FlushPgImp s d p =
     (case page_table s p of
        None \<Rightarrow> (False, s, d)
      | Some frame_id \<Rightarrow>
          (let page = pages s ! frame_id;
               d' = WritePage d p (data page)
           in (True, s\<lparr>pages := (pages s)[frame_id := page\<lparr>is_dirty := False\<rparr>]\<rparr>, d')))"

definition FlushAllPgsImp ::
  "BufferPoolManagerInstance \<Rightarrow> disk \<Rightarrow> BufferPoolManagerInstance \<times> disk" where
  "FlushAllPgsImp s d =
     fold (\<lambda>i (s, d).
             (let page = pages s ! i
              in (s\<lparr>pages := (pages s)[i := page\<lparr>is_dirty := False\<rparr>]\<rparr>,
                  WritePage d (page_id page) (data page))))
          [0..<pool_size s] (s, d)"

text \<open>
  The frame for a new or fetched page: the back of the free list, else the replacer's
  victim.  Both callers come here only when one of the two is not empty; should the
  replacer have nothing, \<open>frame_id\<close> is read uninitialised (\<open>None\<close>).
\<close>

definition take_frame :: "BufferPoolManagerInstance \<Rightarrow> (frame_id_t \<times> BufferPoolManagerInstance) option" where
  "take_frame s =
     (if free_list s \<noteq> [] then
        Some (last (free_list s), s\<lparr>free_list := butlast (free_list s)\<rparr>)
      else
        (case Victim (replacer s) of
           (None, r) \<Rightarrow> None
         | (Some frame_id, r) \<Rightarrow> Some (frame_id, s\<lparr>replacer := r\<rparr>)))"

text \<open>\<open>std::unordered_map::insert\<close> leaves an existing entry as it is.\<close>

definition map_insert :: "('a \<rightharpoonup> 'b) \<Rightarrow> 'a \<Rightarrow> 'b \<Rightarrow> ('a \<rightharpoonup> 'b)" where
  "map_insert m k v = (case m k of Some v' \<Rightarrow> m | None \<Rightarrow> m(k \<mapsto> v))"

text \<open>
  \<open>NewPgImp\<close> returns a page pointer and sets \<open>*page_id\<close>: here the identifier with the
  frame that holds the page, \<open>None\<close> for the null pointer.  The outer option is \<open>None\<close>
  when the program aborts.
\<close>

definition NewPgImp ::
  "BufferPoolManagerInstance \<Rightarrow> disk \<Rightarrow>
     ((page_id_t \<times> frame_id_t) option \<times> BufferPoolManagerInstance \<times> disk) option" where
  "NewPgImp s d =
     (if free_list s = [] \<and> Size (replacer s) = 0 then Some (None, s, d)
      else
        (case AllocatePage s of
           None \<Rightarrow> None
         | Some (new_id, s1) \<Rightarrow>
             (case take_frame s1 of
                None \<Rightarrow> None
              | Some (frame_id, s2) \<Rightarrow>
                  (let page = pages s2 ! frame_id;
                       d1 = (if is_dirty page then WritePage d (page_id page) (data page) else d);
                       page1 = (if is_dirty page then page\<lparr>is_dirty := False\<rparr> else page);
                       pt1 = (page_table s2)(page_id page1 := None);
                       page2 = (ResetMemory page1)\<lparr>page_id := new_id\<rparr>;
                       d2 = WritePage d1 (page_id page2) (data page2);
                       page3 = page2\<lparr>pin_count := 1\<rparr>;
                       r1 = Pin (replacer s2) frame_id;
                       pt2 = map_insert pt1 new_id frame_id
                   in Some (Some (new_id, frame_id),
                            s2\<lparr>pages := (pages s2)[frame_id := page3],
                               page_table := pt2, replacer := r1\<rparr>,
                            d2)))))"

definition FetchPgImp ::
  "BufferPoolManagerInstance \<Rightarrow> disk \<Rightarrow> page_id_t \<Rightarrow>
     (frame_id_t option \<times> BufferPoolManagerInstance \<times> disk) option" where
  "FetchPgImp s d p =
     (case page_table s p of
        Some frame_id \<Rightarrow>
          (let r1 = Pin (replacer s) frame_id;
               page = pages s ! frame_id
           in Some (Some frame_id,
                    s\<lparr>pages := (pages s)[frame_id := page\<lparr>pin_count := pin_count page + 1\<rparr>],
                      replacer := r1\<rparr>,
                    d))
      | None \<Rightarrow>
          (if free_list s = [] \<and> Size (replacer s) = 0 then Some (None, s, d)
           else
             (case take_frame s of
                None \<Rightarrow> None
              | Some (frame_id, s2) \<Rightarrow>
                  (let page = pages s2 ! frame_id;
                       d1 = (if is_dirty page then WritePage d (page_id page) (data page) else d);
                       page1 = (if is_dirty page then page\<lparr>is_dirty := False\<rparr> else page);
                       page2 = ResetMemory page1;
                       pt1 = map_insert (page_table s2) p frame_id;
                       pt2 = pt1(page_id page2 := None);
                       page3 = page2\<lparr>page_id := p\<rparr>;
                       page4 = page3\<lparr>data := ReadPage d1 p\<rparr>;
                       page5 = page4\<lparr>pin_count := pin_count page4 + 1\<rparr>;
                       r1 = Pin (replacer s2) frame_id
                   in Some (Some frame_id,
                            s2\<lparr>pages := (pages s2)[frame_id := page5],
                               page_table := pt2, replacer := r1\<rparr>,
                            d1)))))"

definition DeletePgImp ::
  "BufferPoolManagerInstance \<Rightarrow> page_id_t \<Rightarrow> bool \<times> BufferPoolManagerInstance" where
  "DeletePgImp s p =
     (case page_table s p of
        None \<Rightarrow> (True, s)
      | Some frame_id \<Rightarrow>
          (let page = pages s ! frame_id
           in if pin_count page \<noteq> 0 then (False, s)
              else
                (let pt1 = (page_table s)(p := None);
                     page1 = (ResetMemory page)\<lparr>page_id := INVALID_PAGE_ID, is_dirty := False\<rparr>;
                     s1 = s\<lparr>pages := (pages s)[frame_id := page1], page_table := pt1,
                            free_list := free_list s @ [frame_id]\<rparr>
                 in (True, DeallocatePage s1 p))))"

definition UnpinPgImp ::
  "BufferPoolManagerInstance \<Rightarrow> page_id_t \<Rightarrow> bool \<Rightarrow> bool \<times> BufferPoolManagerInstance" where
  "UnpinPgImp s p dirty =
     (case page_table s p of
        None \<Rightarrow> (False, s)
      | Some frame_id \<Rightarrow>
          (let page = pages s ! frame_id;
               page1 = (if dirty then page\<lparr>is_dirty := dirty\<rparr> else page);
               s1 = s\<lparr>pages := (pages s)[frame_id := page1]\<rparr>
           in if pin_count page1 \<le> 0 then (False, s1)
              else
                (let page2 = page1\<lparr>pin_count := pin_count page1 - 1\<rparr>;
                     s2 = s1\<lparr>pages := (pages s1)[frame_id := page2]\<rparr>
                 in if pin_count page2 = 0
                    then (True, s2\<lparr>replacer := Unpin (replacer s2) frame_id\<rparr>)
                    else (True, s2))))"

section \<open>Parallel buffer pool (buffer/parallel\_buffer\_pool\_manager.cpp)\<close>

text \<open>
  The manager keeps its instances in a map from index to instance pointer, filled by the
  constructor for the indices below \<open>num_instances\<close>.  Reading the map at an index it has
  no entry for yields a null pointer: \<open>None\<close>.  \<open>num_instances_\<close>, \<open>pool_size_\<close> and
  \<open>next_index_\<close> are of type \<open>size_t\<close>, 64 bits wide.
\<close>

record ParallelBufferPoolManager =
  par_num_instances :: nat
  par_pool_size :: nat
  next_index :: nat
  buffer_pool_manager_instances :: "nat \<rightharpoonup> BufferPoolManagerInstance"

fun new_instances :: "nat \<Rightarrow> nat \<Rightarrow> nat \<Rightarrow> (nat \<rightharpoonup> BufferPoolManagerInstance) option" where
  "new_instances pool_sz num_inst 0 = Some Map.empty"
| "new_instances pool_sz num_inst (Suc i) =
     (case new_instances pool_sz num_inst i of
        None \<Rightarrow> None
      | Some m \<Rightarrow>
          (case new_BufferPoolManagerInstance pool_sz num_inst i of
             None \<Rightarrow> None
           | Some inst \<Rightarrow> Some (m(i \<mapsto> inst))))"

definition new_ParallelBufferPoolManager :: "nat \<Rightarrow> nat \<Rightarrow> ParallelBufferPoolManager option" where
  "new_ParallelBufferPoolManager num_inst pool_sz =
     (case new_instances pool_sz num_inst num_inst of
        None \<Rightarrow> None
      | Some m \<Rightarrow>
          Some \<lparr>par_num_instances = num_inst, par_pool_size = pool_sz, next_index = 0,
                buffer_pool_manager_instances = m\<rparr>)"

definition GetPoolSize :: "ParallelBufferPoolManager \<Rightarrow> nat" where
  "GetPoolSize m = (par_num_instances m * par_pool_size m) mod 2 ^ 64"

text \<open>
  \<open>GetBufferPoolManager\<close> computes \<open>page_id % GetPoolSize()\<close>: the 32-bit signed
  identifier is converted to \<open>size_t\<close>, that is sign-extended to 64 bits and read as
  unsigned.  \<open>responsible_index\<close> is the local variable \<open>instance_index\<close>; a pool of size 0
  makes the remainder a division by zero (\<open>None\<close>).
\<close>

definition responsible_index :: "ParallelBufferPoolManager \<Rightarrow> page_id_t \<Rightarrow> nat option" where
  "responsible_index m p =
     (if GetPoolSize m = 0 then None
      else Some (unat (scast p :: 64 word) mod GetPoolSize m))"

definition GetBufferPoolManager ::
  "ParallelBufferPoolManager \<Rightarrow> page_id_t \<Rightarrow> BufferPoolManagerInstance option" where
  "GetBufferPoolManager m p =
     (case responsible_index m p of
        None \<Rightarrow> None
      | Some i \<Rightarrow> buffer_pool_manager_instances m i)"

text \<open>
  The forwarding operations.  Each asks \<open>GetBufferPoolManager\<close> for the instance and
  calls the instance's operation through the pointer; through a null pointer the call is a
  crash (\<open>None\<close>), except in \<open>DeletePgImp\<close>, which tests for it and returns true.  The
  instance is written back at the index it was read from.
\<close>

definition Parallel_FetchPgImp ::
  "ParallelBufferPoolManager \<Rightarrow> disk \<Rightarrow> page_id_t \<Rightarrow>
     (frame_id_t option \<times> ParallelBufferPoolManager \<times> disk) option" where
  "Parallel_FetchPgImp m d p =
     (case responsible_index m p of
        None \<Rightarrow> None
      | Some i \<Rightarrow>
          (case buffer_pool_manager_instances m i of
             None \<Rightarrow> None
           | Some inst \<Rightarrow>
               (case FetchPgImp inst d p of
                  None \<Rightarrow> None
                | Some (r, inst', d') \<Rightarrow>
                    Some (r, m\<lparr>buffer_pool_manager_instances :=
                                 (buffer_pool_manager_instances m)(i \<mapsto> inst')\<rparr>, d'))))"

definition Parallel_UnpinPgImp ::
  "ParallelBufferPoolManager \<Rightarrow> page_id_t \<Rightarrow> bool \<Rightarrow> (bool \<times> ParallelBufferPoolManager) option" where
  "Parallel_UnpinPgImp m p dirty =
     (case responsible_index m p of
        None \<Rightarrow> None
      | Some i \<Rightarrow>
          (case buffer_pool_manager_instances m i of
             None \<Rightarrow> None
           | Some inst \<Rightarrow>
               (case UnpinPgImp inst p dirty of
                  (r, inst') \<Rightarrow>
                    Some (r, m\<lparr>buffer_pool_manager_instances :=
                                 (buffer_pool_manager_instances m)(i \<mapsto> inst')\<rparr>))))"

definition Parallel_FlushPgImp ::
  "ParallelBufferPoolManager \<Rightarrow> disk \<Rightarrow> page_id_t \<Rightarrow>
     (bool \<times> ParallelBufferPoolManager \<times> disk) option" where
  "Parallel_FlushPgImp m d p =
     (case responsible_index m p of
        None \<Rightarrow> None
      | Some i \<Rightarrow>
          (case buffer_pool_manager_instances m i of
             None \<Rightarrow> None
           | Some inst \<Rightarrow>
               (case FlushPgImp inst d p of
                  (r, inst', d') \<Rightarrow>
                    Some (r, m\<lparr>buffer_pool_manager_instances :=
                                 (buffer_pool_manager_instances m)(i \<mapsto> inst')\<rparr>, d'))))"

definition Parallel_DeletePgImp ::
  "ParallelBufferPoolManager \<Rightarrow> page_id_t \<Rightarrow> (bool \<times> ParallelBufferPoolManager) option" where
  "Parallel_DeletePgImp m p =
     (case responsible_index m p of
        None \<Rightarrow> None
      | Some i \<Rightarrow>
          (case buffer_pool_manager_instances m i of
             None \<Rightarrow> Some (True, m)
           | Some inst \<Rightarrow>
               (case DeletePgImp inst p of
                  (r, inst') \<Rightarrow>
                    Some (r, m\<lparr>buffer_pool_manager_instances :=
                                 (buffer_pool_manager_instances m)(i \<mapsto> inst')\<rparr>))))"

text \<open>
  \<open>NewPgImp\<close> asks the instances in turn, starting at \<open>next_index_\<close>, and stops at the
  first that has a frame or when it is back at the start.  \<open>fuel\<close> bounds the number of
  instances still to ask; the loop asks each at most once, so \<open>num_instances\<close> is enough.
\<close>

fun Parallel_NewPg_loop ::
  "nat \<Rightarrow> ParallelBufferPoolManager \<Rightarrow> disk \<Rightarrow> nat \<Rightarrow> nat \<Rightarrow>
     ((page_id_t \<times> nat \<times> frame_id_t) option \<times> ParallelBufferPoolManager \<times> disk) option" where
  "Parallel_NewPg_loop 0 m d index saved_index = None"
| "Parallel_NewPg_loop (Suc fuel) m d index saved_index =
     (case buffer_pool_manager_instances m index of
        None \<Rightarrow> None
      | Some inst \<Rightarrow>
          (case NewPgImp inst d of
             None \<Rightarrow> None
           | Some (Some (new_id, frame_id), inst', d') \<Rightarrow>
               Some (Some (new_id, index, frame_id),
                     m\<lparr>buffer_pool_manager_instances := (buffer_pool_manager_instances m)(index \<mapsto> inst'),
                       next_index := (next_index m + 1) mod par_num_instances m\<rparr>, d')
           | Some (None, inst', d') \<Rightarrow>
               (let m' = m\<lparr>buffer_pool_manager_instances :=
                             (buffer_pool_manager_instances m)(index \<mapsto> inst')\<rparr>;
                    index' = (index + 1) mod par_num_instances m
                in if index' = saved_index then Some (None, m', d')
                   else Parallel_NewPg_loop fuel m' d' index' saved_index)))"

definition Parallel_NewPgImp ::
  "ParallelBufferPoolManager \<Rightarrow> disk \<Rightarrow>
     ((page_id_t \<times> nat \<times> frame_id_t) option \<times> ParallelBufferPoolManager \<times> disk) option" where
  "Parallel_NewPgImp m d =
     Parallel_NewPg_loop (par_num_instances m) m d (next_index m) (next_index m)"

section \<open>Lock manager (concurrency/lock\_manager.cpp)\<close>

text \<open>
  Transactions live in the transaction manager's registry and are reached through their
  identifier (\<open>TransactionManager::GetTransaction\<close>); the \<open>Transaction *\<close> a lock
  operation receives is the registry's object, so the model passes the identifier and
  reads the registry.  The lock table maps a record identifier to its queue; \<open>operator[]\<close>
  creates the empty queue with \<open>upgrading_ = INVALID_TXN_ID\<close> on first use, so the table is
  a total function with that default.  The queue's condition variable is not data.
\<close>

datatype TransactionState = GROWING | SHRINKING | COMMITTED | ABORTED

datatype IsolationLevel = READ_UNCOMMITTED | REPEATABLE_READ | READ_COMMITTED

datatype LockMode = SHARED | EXCLUSIVE

datatype AbortReason =
  LOCK_ON_SHRINKING | UNLOCK_ON_SHRINKING | UPGRADE_CONFLICT | DEADLOCK | LOCKSHARED_ON_READ_UNCOMMITTED

type_synonym txn_id_t = int

type_synonym RID = "32 word \<times> 32 word"

definition INVALID_TXN_ID :: txn_id_t where
  "INVALID_TXN_ID = - 1"

record Transaction =
  isolation_level :: IsolationLevel
  state :: TransactionState
  shared_lock_set :: "RID set"
  exclusive_lock_set :: "RID set"

record LockRequest =
  txn_id :: txn_id_t
  lock_mode :: LockMode
  granted :: bool

record LockRequestQueue =
  request_queue :: "LockRequest list"
  upgrading :: txn_id_t

record LockManager =
  lock_table :: "RID \<Rightarrow> LockRequestQueue"
  txn_map :: "txn_id_t \<Rightarrow> Transaction"

definition new_LockRequest :: "txn_id_t \<Rightarrow> LockMode \<Rightarrow> LockRequest" where
  "new_LockRequest t m = \<lparr>txn_id = t, lock_mode = m, granted = False\<rparr>"

definition new_LockRequestQueue :: LockRequestQueue where
  "new_LockRequestQueue = \<lparr>request_queue = [], upgrading = INVALID_TXN_ID\<rparr>"

definition new_Transaction :: "IsolationLevel \<Rightarrow> Transaction" where
  "new_Transaction lvl =
     \<lparr>isolation_level = lvl, state = GROWING, shared_lock_set = {}, exclusive_lock_set = {}\<rparr>"

text \<open>
  The outcome of a lock operation: it returns a boolean, throws
  \<open>TransactionAbortException\<close> with a reason, or goes to sleep on the queue's condition
  variable (\<open>Waits\<close>; the state given with it is the one at that moment, and what the
  thread does when woken is outside this sequential model).  \<open>Undefined\<close> is a run of an
  iterator past the end of the queue.
\<close>

datatype lock_result = Returned bool | Threw AbortReason | Waits | Undefined

definition SetState :: "LockManager \<Rightarrow> txn_id_t \<Rightarrow> TransactionState \<Rightarrow> LockManager" where
  "SetState s t st = s\<lparr>txn_map := (txn_map s)(t := (txn_map s t)\<lparr>state := st\<rparr>)\<rparr>"

definition set_queue :: "LockManager \<Rightarrow> RID \<Rightarrow> LockRequest list \<Rightarrow> LockManager" where
  "set_queue s rid q = s\<lparr>lock_table := (lock_table s)(rid := (lock_table s rid)\<lparr>request_queue := q\<rparr>)\<rparr>"

definition set_upgrading :: "LockManager \<Rightarrow> RID \<Rightarrow> txn_id_t \<Rightarrow> LockManager" where
  "set_upgrading s rid t = s\<lparr>lock_table := (lock_table s)(rid := (lock_table s rid)\<lparr>upgrading := t\<rparr>)\<rparr>"

text \<open>The requests collected in \<open>iterators\<close> are erased by position.\<close>

definition erase_at :: "nat list \<Rightarrow> 'a list \<Rightarrow> 'a list" where
  "erase_at iterators q = map fst (filter (\<lambda>(r, i). i \<notin> set iterators) (zip q [0..<length q]))"

text \<open>
  The first loop of \<open>NeedWait\<close> looks through the whole queue for a granted request that
  conflicts with the wanted mode.
\<close>

definition conflict_granted :: "LockRequest list \<Rightarrow> LockMode \<Rightarrow> bool" where
  "conflict_granted q mode =
     list_ex (\<lambda>r. if mode = SHARED then granted r \<and> lock_mode r = EXCLUSIVE else granted r) q"

text \<open>
  The second loop runs from the head of the queue up to the transaction's own request:
  it aborts each younger transaction whose request conflicts, unless that one is aborted
  already, and notes the request for erasure; an older transaction's request makes the
  caller wait when either mode is exclusive.  The arguments are the requests still to
  visit, the position of the first of them, and the loop's variables.
\<close>

fun NeedWait_scan ::
  "LockRequest list \<Rightarrow> nat \<Rightarrow> txn_id_t \<Rightarrow> LockMode \<Rightarrow>
     (txn_id_t \<Rightarrow> Transaction) \<times> bool \<times> nat list \<Rightarrow> (txn_id_t \<Rightarrow> Transaction) \<times> bool \<times> nat list" where
  "NeedWait_scan [] pos t mode acc = acc"
| "NeedWait_scan (r # rest) pos t mode (tm, need_wait, iterators) =
     (if txn_id r > t then
        (if (mode = SHARED \<and> lock_mode r = EXCLUSIVE) \<or> mode = EXCLUSIVE then
           (if state (tm (txn_id r)) \<noteq> ABORTED
            then NeedWait_scan rest (pos + 1) t mode
                   (tm(txn_id r := (tm (txn_id r))\<lparr>state := ABORTED\<rparr>), need_wait, iterators @ [pos])
            else NeedWait_scan rest (pos + 1) t mode (tm, need_wait, iterators))
         else NeedWait_scan rest (pos + 1) t mode (tm, need_wait, iterators))
      else
        NeedWait_scan rest (pos + 1) t mode
          (tm, need_wait \<or> mode = EXCLUSIVE \<or> lock_mode r = EXCLUSIVE, iterators))"

definition NeedWait :: "LockManager \<Rightarrow> txn_id_t \<Rightarrow> RID \<Rightarrow> LockMode \<Rightarrow> (bool \<times> LockManager) option" where
  "NeedWait s t rid mode =
     (let q = request_queue (lock_table s rid)
      in if \<not> conflict_granted q mode then Some (False, s)
         else if t \<notin> txn_id ` set q then None
         else
           (case NeedWait_scan (takeWhile (\<lambda>r. txn_id r \<noteq> t) q) 0 t mode (txn_map s, False, [])
            of (tm, need_wait, iterators) \<Rightarrow>
              Some (need_wait, set_queue (s\<lparr>txn_map := tm\<rparr>) rid (erase_at iterators q))))"

text \<open>
  \<open>NeedWaitForUpgrade\<close> has the same shape.  Its loop also ends at the transaction's own
  request, so the test for the own request inside the loop never holds; every younger
  transaction before the own request is aborted and its request erased, every older one
  makes the caller wait.
\<close>

fun NeedWaitForUpgrade_scan ::
  "LockRequest list \<Rightarrow> nat \<Rightarrow> txn_id_t \<Rightarrow>
     (txn_id_t \<Rightarrow> Transaction) \<times> bool \<times> nat list \<Rightarrow> (txn_id_t \<Rightarrow> Transaction) \<times> bool \<times> nat list" where
  "NeedWaitForUpgrade_scan [] pos t acc = acc"
| "NeedWaitForUpgrade_scan (r # rest) pos t (tm, need_wait, iterators) =
     (if txn_id r = t then NeedWaitForUpgrade_scan rest (pos + 1) t (tm, need_wait, iterators)
      else if txn_id r > t then
        NeedWaitForUpgrade_scan rest (pos + 1) t
          (tm(txn_id r := (tm (txn_id r))\<lparr>state := ABORTED\<rparr>), need_wait, iterators @ [pos])
      else NeedWaitForUpgrade_scan rest (pos + 1) t (tm, True, iterators))"

definition NeedWaitForUpgrade :: "LockManager \<Rightarrow> txn_id_t \<Rightarrow> RID \<Rightarrow> (bool \<times> LockManager) option" where
  "NeedWaitForUpgrade s t rid =
     (let q = request_queue (lock_table s rid)
      in if t \<notin> txn_id ` set q then None
         else
           (case NeedWaitForUpgrade_scan (takeWhile (\<lambda>r. txn_id r \<noteq> t) q) 0 t (txn_map s, False, [])
            of (tm, need_wait, iterators) \<Rightarrow>
              Some (need_wait, set_queue (s\<lparr>txn_map := tm\<rparr>) rid (erase_at iterators q))))"

text \<open>After the wait loop every request of the transaction in the queue is marked granted.\<close>

definition grant_all :: "txn_id_t \<Rightarrow> LockRequest list \<Rightarrow> LockRequest list" where
  "grant_all t q = map (\<lambda>r. if txn_id r = t then r\<lparr>granted := True\<rparr> else r) q"

definition add_shared :: "LockManager \<Rightarrow> txn_id_t \<Rightarrow> RID \<Rightarrow> LockManager" where
  "add_shared s t rid =
     s\<lparr>txn_map := (txn_map s)(t := (txn_map s t)\<lparr>shared_lock_set := insert rid (shared_lock_set (txn_map s t))\<rparr>)\<rparr>"

definition add_exclusive :: "LockManager \<Rightarrow> txn_id_t \<Rightarrow> RID \<Rightarrow> LockManager" where
  "add_exclusive s t rid =
     s\<lparr>txn_map := (txn_map s)(t := (txn_map s t)\<lparr>exclusive_lock_set := insert rid (exclusive_lock_set (txn_map s t))\<rparr>)\<rparr>"

definition erase_shared :: "LockManager \<Rightarrow> txn_id_t \<Rightarrow> RID \<Rightarrow> LockManager" where
  "erase_shared s t rid =
     s\<lparr>txn_map := (txn_map s)(t := (txn_map s t)\<lparr>shared_lock_set := shared_lock_set (txn_map s t) - {rid}\<rparr>)\<rparr>"

definition erase_exclusive :: "LockManager \<Rightarrow> txn_id_t \<Rightarrow> RID \<Rightarrow> LockManager" where
  "erase_exclusive s t rid =
     s\<lparr>txn_map := (txn_map s)(t := (txn_map s t)\<lparr>exclusive_lock_set := exclusive_lock_set (txn_map s t) - {rid}\<rparr>)\<rparr>"

definition LockShared :: "LockManager \<Rightarrow> txn_id_t \<Rightarrow> RID \<Rightarrow> lock_result \<times> LockManager" where
  "LockShared s t rid =
     (if state (txn_map s t) = ABORTED then (Returned False, s)
      else if state (txn_map s t) = SHRINKING \<and> isolation_level (txn_map s t) = REPEATABLE_READ
      then (Threw LOCK_ON_SHRINKING, SetState s t ABORTED)
      else if isolation_level (txn_map s t) = READ_UNCOMMITTED
      then (Threw LOCKSHARED_ON_READ_UNCOMMITTED, SetState s t ABORTED)
      else if rid \<in> shared_lock_set (txn_map s t) then (Returned True, s)
      else
        (let s1 = set_queue s rid (request_queue (lock_table s rid) @ [new_LockRequest t SHARED])
         in case NeedWait s1 t rid SHARED of
              None \<Rightarrow> (Undefined, s1)
            | Some (True, s2) \<Rightarrow> (Waits, s2)
            | Some (False, s2) \<Rightarrow>
                (let s3 = set_queue s2 rid (grant_all t (request_queue (lock_table s2 rid)));
                     s4 = SetState s3 t GROWING
                 in (Returned True, add_shared s4 t rid))))"

definition LockExclusive :: "LockManager \<Rightarrow> txn_id_t \<Rightarrow> RID \<Rightarrow> lock_result \<times> LockManager" where
  "LockExclusive s t rid =
     (if state (txn_map s t) = ABORTED then (Returned False, s)
      else if state (txn_map s t) = SHRINKING \<and> isolation_level (txn_map s t) = REPEATABLE_READ
      then (Threw LOCK_ON_SHRINKING, SetState s t ABORTED)
      else if rid \<in> exclusive_lock_set (txn_map s t) then (Returned True, s)
      else
        (let s1 = set_queue s rid (request_queue (lock_table s rid) @ [new_LockRequest t EXCLUSIVE])
         in case NeedWait s1 t rid EXCLUSIVE of
              None \<Rightarrow> (Undefined, s1)
            | Some (True, s2) \<Rightarrow> (Waits, s2)
            | Some (False, s2) \<Rightarrow>
                (let s3 = set_queue s2 rid (grant_all t (request_queue (lock_table s2 rid)));
                     s4 = SetState s3 t GROWING
                 in (Returned True, add_exclusive s4 t rid))))"

text \<open>
  The grant loop of \<open>LockUpgrade\<close> changes the first request of the transaction only
  (\<open>break\<close>): granted, exclusive, and \<open>upgrading_\<close> reset.
\<close>

fun upgrade_first :: "txn_id_t \<Rightarrow> LockRequest list \<Rightarrow> (LockRequest list) option" where
  "upgrade_first t [] = None"
| "upgrade_first t (r # rest) =
     (if txn_id r = t then Some (r\<lparr>granted := True, lock_mode := EXCLUSIVE\<rparr> # rest)
      else map_option (\<lambda>q. r # q) (upgrade_first t rest))"

definition LockUpgrade :: "LockManager \<Rightarrow> txn_id_t \<Rightarrow> RID \<Rightarrow> lock_result \<times> LockManager" where
  "LockUpgrade s t rid =
     (if state (txn_map s t) = ABORTED \<or> rid \<notin> shared_lock_set (txn_map s t) \<or>
         upgrading (lock_table s rid) \<noteq> INVALID_TXN_ID
      then (Returned False, s)
      else if rid \<in> exclusive_lock_set (txn_map s t) then (Returned True, s)
      else if state (txn_map s t) = SHRINKING then (Threw LOCK_ON_SHRINKING, SetState s t ABORTED)
      else
        (let s1 = set_upgrading s rid t
         in case NeedWaitForUpgrade s1 t rid of
              None \<Rightarrow> (Undefined, s1)
            | Some (True, s2) \<Rightarrow> (Waits, s2)
            | Some (False, s2) \<Rightarrow>
                (let s3 = (case upgrade_first t (request_queue (lock_table s2 rid)) of
                             None \<Rightarrow> s2
                           | Some q \<Rightarrow> set_upgrading (set_queue s2 rid q) rid INVALID_TXN_ID);
                     s4 = SetState s3 t GROWING;
                     s5 = add_exclusive s4 t rid
                 in (Returned True, erase_shared s5 t rid))))"

text \<open>\<open>Unlock\<close> erases the first request of the transaction from the queue.\<close>

fun erase_first :: "txn_id_t \<Rightarrow> LockRequest list \<Rightarrow> (LockRequest list) option" where
  "erase_first t [] = None"
| "erase_first t (r # rest) =
     (if txn_id r = t then Some rest else map_option (\<lambda>q. r # q) (erase_first t rest))"

definition Unlock :: "LockManager \<Rightarrow> txn_id_t \<Rightarrow> RID \<Rightarrow> lock_result \<times> LockManager" where
  "Unlock s t rid =
     (if rid \<notin> exclusive_lock_set (txn_map s t) \<and> rid \<notin> shared_lock_set (txn_map s t)
      then (Returned False, s)
      else
        (case erase_first t (request_queue (lock_table s rid)) of
           None \<Rightarrow> (Returned False, s)
         | Some q \<Rightarrow>
             (let s1 = set_queue s rid q;
                  s2 = (if isolation_level (txn_map s1 t) = REPEATABLE_READ \<and> state (txn_map s1 t) = GROWING
                        then SetState s1 t SHRINKING else s1);
                  s3 = erase_exclusive s2 t rid
              in (Returned True, erase_shared s3 t rid))))"

section \<open>Directory page\<close>

text \<open>
  Modelled from the spec: the class \<open>HashTableDirectoryPage\<close>, whose source file is not
  among the sources at hand.  The spec's data model gives a directory page the fields
  \<open>global_depth\<close>, \<open>local_depth[i]\<close> and \<open>bucket_page_id[i]\<close>; the two arrays are functions
  of the slot index here, and the page as the buffer pool hands it out is all zero.
\<close>

record HashTableDirectoryPage =
  global_depth :: nat
  local_depths :: "nat \<Rightarrow> nat"
  bucket_page_ids :: "nat \<Rightarrow> page_id_t"

text \<open>Modelled from the spec: a directory page fresh from \<open>NewPage\<close>, every byte zero.\<close>

definition zero_directory :: HashTableDirectoryPage where
  "zero_directory = \<lparr>global_depth = 0, local_depths = (\<lambda>i. 0), bucket_page_ids = (\<lambda>i. 0)\<rparr>"

text \<open>Modelled from the spec: \<open>GetGlobalDepth\<close> reads the field \<open>global_depth\<close>.\<close>

definition GetGlobalDepth :: "HashTableDirectoryPage \<Rightarrow> nat" where
  "GetGlobalDepth d = global_depth d"

text \<open>Modelled from the spec: \<open>GlobalDepthMask = (1 << global_depth) - 1\<close>.\<close>

definition GetGlobalDepthMask :: "HashTableDirectoryPage \<Rightarrow> 32 word" where
  "GetGlobalDepthMask d = push_bit (global_depth d) 1 - 1"

text \<open>Modelled from the spec: \<open>Size\<close>, the number of slots, \<open>2^global_depth\<close>.\<close>

definition Dir_Size :: "HashTableDirectoryPage \<Rightarrow> nat" where
  "Dir_Size d = 2 ^ global_depth d"

text \<open>
  Modelled from the spec: \<open>IncrGlobalDepth\<close>, the directory expansion, "doubles the
  directory, preserving all existing bucket pointers so that each original index is
  mirrored to \<open>index | (1 << old_global_depth)\<close>".  A slot is a pair of bucket page and
  local depth, and both are mirrored.
\<close>

definition IncrGlobalDepth :: "HashTableDirectoryPage \<Rightarrow> HashTableDirectoryPage" where
  "IncrGlobalDepth d =
     (let n = Dir_Size d
      in d\<lparr>global_depth := global_depth d + 1,
           local_depths := (\<lambda>i. if n \<le> i \<and> i < 2 * n then local_depths d (i - n) else local_depths d i),
           bucket_page_ids :=
             (\<lambda>i. if n \<le> i \<and> i < 2 * n then bucket_page_ids d (i - n) else bucket_page_ids d i)\<rparr>)"

text \<open>
  Modelled from the spec: \<open>DecrGlobalDepth\<close>, the directory shrink, which \<open>Merge\<close> calls
  in every round without a test of its own.  The spec has the test: "If every directory
  slot now has \<open>local_depth < global_depth\<close>, decrement \<open>global_depth\<close> (directory
  shrink)".  The slots stay as they are.
\<close>

definition DecrGlobalDepth :: "HashTableDirectoryPage \<Rightarrow> HashTableDirectoryPage" where
  "DecrGlobalDepth d =
     (if list_all (\<lambda>i. local_depths d i < global_depth d) [0..<Dir_Size d]
      then d\<lparr>global_depth := global_depth d - 1\<rparr>
      else d)"

text \<open>Modelled from the spec: \<open>GetBucketPageId\<close> reads \<open>bucket_page_id[i]\<close>.\<close>

definition GetBucketPageId :: "HashTableDirectoryPage \<Rightarrow> nat \<Rightarrow> page_id_t" where
  "GetBucketPageId d bucket_idx = bucket_page_ids d bucket_idx"

text \<open>Modelled from the spec: \<open>SetBucketPageId\<close> writes \<open>bucket_page_id[i]\<close>.\<close>

definition SetBucketPageId :: "HashTableDirectoryPage \<Rightarrow> nat \<Rightarrow> page_id_t \<Rightarrow> HashTableDirectoryPage" where
  "SetBucketPageId d bucket_idx p = d\<lparr>bucket_page_ids := (bucket_page_ids d)(bucket_idx := p)\<rparr>"

text \<open>Modelled from the spec: \<open>GetLocalDepth\<close> reads \<open>local_depth[i]\<close>.\<close>

definition GetLocalDepth :: "HashTableDirectoryPage \<Rightarrow> nat \<Rightarrow> nat" where
  "GetLocalDepth d bucket_idx = local_depths d bucket_idx"

text \<open>Modelled from the spec: \<open>SetLocalDepth\<close> writes \<open>local_depth[i]\<close>.\<close>

definition SetLocalDepth :: "HashTableDirectoryPage \<Rightarrow> nat \<Rightarrow> nat \<Rightarrow> HashTableDirectoryPage" where
  "SetLocalDepth d bucket_idx l = d\<lparr>local_depths := (local_depths d)(bucket_idx := l)\<rparr>"

text \<open>Modelled from the spec: \<open>IncrLocalDepth\<close> increments \<open>local_depth[i]\<close>.\<close>

definition IncrLocalDepth :: "HashTableDirectoryPage \<Rightarrow> nat \<Rightarrow> HashTableDirectoryPage" where
  "IncrLocalDepth d bucket_idx = SetLocalDepth d bucket_idx (local_depths d bucket_idx + 1)"

text \<open>Modelled from the spec: \<open>DecrLocalDepth\<close> decrements \<open>local_depth[i]\<close>.\<close>

definition DecrLocalDepth :: "HashTableDirectoryPage \<Rightarrow> nat \<Rightarrow> HashTableDirectoryPage" where
  "DecrLocalDepth d bucket_idx = SetLocalDepth d bucket_idx (local_depths d bucket_idx - 1)"

text \<open>Modelled from the spec: \<open>LocalDepthMask(i) = (1 << local_depth[i]) - 1\<close>.\<close>

definition GetLocalDepthMask :: "HashTableDirectoryPage \<Rightarrow> nat \<Rightarrow> 32 word" where
  "GetLocalDepthMask d bucket_idx = push_bit (local_depths d bucket_idx) 1 - 1"

text \<open>
  Modelled from the spec: \<open>SplitImageIndex(i) = i XOR (1 << (local_depth[i] - 1))\<close>.
\<close>

definition GetSplitImageIndex :: "HashTableDirectoryPage \<Rightarrow> nat \<Rightarrow> nat" where
  "GetSplitImageIndex d bucket_idx =
     unat ((word_of_nat bucket_idx :: 32 word) XOR push_bit (local_depths d bucket_idx - 1) 1)"

section \<open>Extendible hash table (container/hash/extendible\_hash\_table.cpp)\<close>

text \<open>
  The table reaches its pages through the buffer pool: \<open>NewPage\<close> for a fresh zeroed
  page, \<open>FetchPage\<close> for a page by identifier, \<open>UnpinPage\<close> when done, \<open>DeletePage\<close> in
  \<open>Merge\<close>.  Every fetch is paired with an unpin, and the table dereferences what the
  pool returns without a test, so the pool with the disk behind it is taken as a store of
  pages by identifier: the directory page and a map from identifier to bucket page,
  together with the pool's allocation counter.  An operation is \<open>None\<close> when it fetches a
  bucket page the store does not hold.  The table latch and the page latches are not data.
  \<open>bucket_array_size\<close> is the number of slots of a bucket page of the instantiation.
\<close>

record ('k, 'v) ExtendibleHashTable =
  hash_fn :: "'k \<Rightarrow> 64 word"
  comparator :: "'k \<Rightarrow> 'k \<Rightarrow> int"
  bucket_array_size :: nat
  directory_page_id :: page_id_t
  dir_page :: HashTableDirectoryPage
  bucket_pages :: "page_id_t \<rightharpoonup> ('k, 'v) bucket_page"
  pool_next_page_id :: page_id_t

definition HT_NewPage ::
  "('k, 'v) ExtendibleHashTable \<Rightarrow> page_id_t \<times> ('k, 'v) ExtendibleHashTable" where
  "HT_NewPage t = (pool_next_page_id t, t\<lparr>pool_next_page_id := pool_next_page_id t + 1\<rparr>)"

definition new_ExtendibleHashTable ::
  "('k \<Rightarrow> 64 word) \<Rightarrow> ('k \<Rightarrow> 'k \<Rightarrow> int) \<Rightarrow> nat \<Rightarrow> ('k::zero, 'v::zero) ExtendibleHashTable" where
  "new_ExtendibleHashTable h cmp n =
     (let d0 = IncrGlobalDepth zero_directory;
          d1 = SetLocalDepth (SetBucketPageId d0 0 1) 0 1;
          d2 = SetLocalDepth (SetBucketPageId d1 1 2) 1 1
      in \<lparr>hash_fn = h, comparator = cmp, bucket_array_size = n,
          directory_page_id = 0, dir_page = d2,
          bucket_pages = [1 \<mapsto> zero_bucket n, 2 \<mapsto> zero_bucket n],
          pool_next_page_id = 3\<rparr>)"

definition Hash :: "('k, 'v) ExtendibleHashTable \<Rightarrow> 'k \<Rightarrow> 32 word" where
  "Hash t key = ucast (hash_fn t key)"

definition KeyToDirectoryIndex ::
  "('k, 'v) ExtendibleHashTable \<Rightarrow> 'k \<Rightarrow> HashTableDirectoryPage \<Rightarrow> nat" where
  "KeyToDirectoryIndex t key d = unat (Hash t key AND GetGlobalDepthMask d)"

definition KeyToPageId ::
  "('k, 'v) ExtendibleHashTable \<Rightarrow> 'k \<Rightarrow> HashTableDirectoryPage \<Rightarrow> page_id_t" where
  "KeyToPageId t key d = GetBucketPageId d (unat (Hash t key AND GetGlobalDepthMask d))"

definition FetchBucketPage ::
  "('k, 'v) ExtendibleHashTable \<Rightarrow> page_id_t \<Rightarrow> ('k, 'v) bucket_page option" where
  "FetchBucketPage t p = bucket_pages t p"

definition put_bucket ::
  "('k, 'v) ExtendibleHashTable \<Rightarrow> page_id_t \<Rightarrow> ('k, 'v) bucket_page \<Rightarrow> ('k, 'v) ExtendibleHashTable" where
  "put_bucket t p b = t\<lparr>bucket_pages := (bucket_pages t)(p \<mapsto> b)\<rparr>"

definition HT_GetValue ::
  "('k, 'v) ExtendibleHashTable \<Rightarrow> 'k \<Rightarrow> 'v list \<Rightarrow> (bool \<times> 'v list) option" where
  "HT_GetValue t key result =
     (let bucket_page_id = KeyToPageId t key (dir_page t)
      in case FetchBucketPage t bucket_page_id of
           None \<Rightarrow> None
         | Some bucket_page \<Rightarrow>
             (let result' = snd (GetValue bucket_page key (comparator t) result)
              in Some (result' \<noteq> [], result')))"

text \<open>
  The loop of \<open>SplitInsert\<close> that puts the drained pairs back: a pair goes to the split
  image when its hash under the local depth mask equals the split image index, and to the
  old bucket otherwise.
\<close>

definition redistribute ::
  "('k, 'v) ExtendibleHashTable \<Rightarrow> 32 word \<Rightarrow> nat \<Rightarrow> ('k \<times> 'v) list \<Rightarrow>
     ('k, 'v) bucket_page \<times> ('k, 'v) bucket_page \<Rightarrow> ('k, 'v) bucket_page \<times> ('k, 'v) bucket_page" where
  "redistribute t local_depth_mask split_image_index result pages0 =
     fold (\<lambda>mapping (bucket_page, split_image_page).
             (let idx = unat (Hash t (fst mapping) AND local_depth_mask)
              in if idx = split_image_index
                 then (bucket_page, snd (Insert split_image_page (fst mapping) (snd mapping) (comparator t)))
                 else (snd (Insert bucket_page (fst mapping) (snd mapping) (comparator t)), split_image_page)))
          result pages0"

text \<open>
  The two sweeps of \<open>SplitInsert\<close> over the directory, from the split image index
  downwards and upwards in steps of \<open>step_length = 1 << local_depth\<close>; \<open>l\<close> is that local
  depth.  The downward loop's condition \<open>idx >= 0\<close> is always true of a \<open>size_t\<close>; the
  loop leaves through its \<open>break\<close>.
\<close>

function SplitInsert_sweep_down ::
  "nat \<Rightarrow> page_id_t \<Rightarrow> nat \<Rightarrow> nat \<Rightarrow> HashTableDirectoryPage \<Rightarrow> HashTableDirectoryPage" where
  "SplitInsert_sweep_down split_image_index split_image_page_id l idx d =
     (let d1 = SetBucketPageId d idx split_image_page_id;
          d2 = SetLocalDepth d1 idx (GetLocalDepth d1 split_image_index)
      in if idx < 2 ^ l then d2
         else SplitInsert_sweep_down split_image_index split_image_page_id l (idx - 2 ^ l) d2)"
  by pat_completeness auto
termination
  apply (relation "measure (\<lambda>(split_image_index, split_image_page_id, l, idx, d). idx)")
   apply simp
  apply (auto simp: not_less)
  subgoal for l idx
    using zero_less_power [of "2::nat" l] by linarith
  done

function SplitInsert_sweep_up ::
  "nat \<Rightarrow> page_id_t \<Rightarrow> nat \<Rightarrow> nat \<Rightarrow> HashTableDirectoryPage \<Rightarrow> HashTableDirectoryPage" where
  "SplitInsert_sweep_up split_image_index split_image_page_id l idx d =
     (if idx < Dir_Size d then
        (let d1 = SetBucketPageId d idx split_image_page_id;
             d2 = SetLocalDepth d1 idx (GetLocalDepth d1 split_image_index)
         in SplitInsert_sweep_up split_image_index split_image_page_id l (idx + 2 ^ l) d2)
      else d)"
  by pat_completeness auto
termination
proof (relation "measure (\<lambda>(split_image_index, split_image_page_id, l, idx, d). Dir_Size d - idx)")
  show "wf (measure (\<lambda>(split_image_index, split_image_page_id, l, idx, d). Dir_Size d - idx))"
    by simp
qed (auto simp: Dir_Size_def SetBucketPageId_def SetLocalDepth_def intro: diff_less_mono2)

declare SplitInsert_sweep_down.simps [simp del]
declare SplitInsert_sweep_up.simps [simp del]

definition HT_SplitInsert ::
  "('k::zero, 'v::zero) ExtendibleHashTable \<Rightarrow> 'k \<Rightarrow> 'v \<Rightarrow> (bool \<times> ('k, 'v) ExtendibleHashTable) option" where
  "HT_SplitInsert t key val =
     (let d = dir_page t;
          bucket_page_id = KeyToPageId t key d;
          directory_idx = KeyToDirectoryIndex t key d
      in case FetchBucketPage t bucket_page_id of
           None \<Rightarrow> None
         | Some bucket_page \<Rightarrow>
             (case Insert bucket_page key val (comparator t) of
                (True, bucket_page') \<Rightarrow> Some (True, put_bucket t bucket_page_id bucket_page')
              | (False, _) \<Rightarrow>
                  if \<not> IsFull bucket_page then Some (False, t)
                  else if IsRepeat bucket_page key val (comparator t) then Some (False, t)
                  else
                    (let gd = GetGlobalDepth d;
                         d1 = IncrLocalDepth d directory_idx;
                         d2 = (if GetLocalDepth d1 directory_idx > gd then IncrGlobalDepth d1 else d1);
                         split_image_index = GetSplitImageIndex d2 directory_idx;
                         (split_image_page_id, t1) = HT_NewPage t;
                         split_image_page = zero_bucket (bucket_array_size t);
                         d3 = SetLocalDepth d2 split_image_index (GetLocalDepth d2 directory_idx);
                         d4 = SetBucketPageId d3 split_image_index split_image_page_id;
                         (result, bucket_page0) = CopyMappingsAndResetPage bucket_page [];
                         local_depth_mask = GetLocalDepthMask d4 directory_idx;
                         (bucket_page1, split_image_page1) =
                            redistribute t local_depth_mask split_image_index result
                              (bucket_page0, split_image_page);
                         l = GetLocalDepth d4 directory_idx;
                         d5 = SplitInsert_sweep_down split_image_index split_image_page_id l split_image_index d4;
                         d6 = SplitInsert_sweep_up split_image_index split_image_page_id l split_image_index d5;
                         new_directory_idx = unat (Hash t key AND local_depth_mask);
                         (inserted, bucket_page2, split_image_page2) =
                            (if new_directory_idx = directory_idx
                             then (case Insert bucket_page1 key val (comparator t) of
                                     (r, b) \<Rightarrow> (r, b, split_image_page1))
                             else (case Insert split_image_page1 key val (comparator t) of
                                     (r, b) \<Rightarrow> (r, bucket_page1, b)));
                         t2 = put_bucket (put_bucket t1 bucket_page_id bucket_page2)
                                split_image_page_id split_image_page2
                     in Some (inserted, t2\<lparr>dir_page := d6\<rparr>))))"

definition HT_Insert ::
  "('k::zero, 'v::zero) ExtendibleHashTable \<Rightarrow> 'k \<Rightarrow> 'v \<Rightarrow> (bool \<times> ('k, 'v) ExtendibleHashTable) option" where
  "HT_Insert t key val =
     (let d = dir_page t;
          bucket_page_id = KeyToPageId t key d
      in case FetchBucketPage t bucket_page_id of
           None \<Rightarrow> None
         | Some bucket_page \<Rightarrow>
             (case Insert bucket_page key val (comparator t) of
                (True, bucket_page') \<Rightarrow> Some (True, put_bucket t bucket_page_id bucket_page')
              | (False, _) \<Rightarrow>
                  if \<not> IsFull bucket_page then Some (False, t)
                  else if IsRepeat bucket_page key val (comparator t) then Some (False, t)
                  else HT_SplitInsert t key val))"

text \<open>
  The two sweeps of \<open>Merge\<close>, from the emptied bucket's directory index downwards and
  upwards: each visited slot takes the split image's bucket page and local depth.
\<close>

function Merge_sweep_down ::
  "nat \<Rightarrow> nat \<Rightarrow> nat \<Rightarrow> HashTableDirectoryPage \<Rightarrow> HashTableDirectoryPage" where
  "Merge_sweep_down split_image_bucket_idx l idx d =
     (let d1 = SetBucketPageId d idx (GetBucketPageId d split_image_bucket_idx);
          d2 = SetLocalDepth d1 idx (GetLocalDepth d1 split_image_bucket_idx)
      in if idx < 2 ^ l then d2
         else Merge_sweep_down split_image_bucket_idx l (idx - 2 ^ l) d2)"
  by pat_completeness auto
termination
  apply (relation "measure (\<lambda>(split_image_bucket_idx, l, idx, d). idx)")
   apply simp
  apply (auto simp: not_less)
  subgoal for l idx
    using zero_less_power [of "2::nat" l] by linarith
  done

function Merge_sweep_up ::
  "nat \<Rightarrow> nat \<Rightarrow> nat \<Rightarrow> HashTableDirectoryPage \<Rightarrow> HashTableDirectoryPage" where
  "Merge_sweep_up split_image_bucket_idx l idx d =
     (if idx < Dir_Size d then
        (let d1 = SetBucketPageId d idx (GetBucketPageId d split_image_bucket_idx);
             d2 = SetLocalDepth d1 idx (GetLocalDepth d1 split_image_bucket_idx)
         in Merge_sweep_up split_image_bucket_idx l (idx + 2 ^ l) d2)
      else d)"
  by pat_completeness auto
termination
proof (relation "measure (\<lambda>(split_image_bucket_idx, l, idx, d). Dir_Size d - idx)")
  show "wf (measure (\<lambda>(split_image_bucket_idx, l, idx, d). Dir_Size d - idx))"
    by simp
qed (auto simp: Dir_Size_def SetBucketPageId_def SetLocalDepth_def intro: diff_less_mono2)

declare Merge_sweep_down.simps [simp del]
declare Merge_sweep_up.simps [simp del]

text \<open>
  One round of the loop of \<open>Merge\<close>, after its two tests: it lowers the split image's
  local depth, sweeps, deletes the emptied page and calls \<open>DecrGlobalDepth\<close>.
\<close>

definition Merge_round ::
  "('k, 'v) ExtendibleHashTable \<Rightarrow> page_id_t \<Rightarrow> nat \<Rightarrow> nat \<Rightarrow> ('k, 'v) ExtendibleHashTable" where
  "Merge_round t bucket_page_id directory_idx split_image_bucket_idx =
     (let d = dir_page t;
          d1 = DecrLocalDepth d split_image_bucket_idx;
          l = GetLocalDepth d1 split_image_bucket_idx;
          d2 = Merge_sweep_down split_image_bucket_idx l directory_idx d1;
          d3 = Merge_sweep_up split_image_bucket_idx l directory_idx d2;
          t1 = t\<lparr>bucket_pages := (bucket_pages t)(bucket_page_id := None)\<rparr>;
          d4 = DecrGlobalDepth d3
      in t1\<lparr>dir_page := d4\<rparr>)"

text \<open>
  The loop of \<open>Merge\<close>.  It leaves when the bucket of the key is not empty, when its local
  depth is at most 1, or when the split image has another local depth; otherwise it does
  a round and goes on with the key's new bucket.  Nothing in the loop bounds the number
  of rounds, so it is a partial function: \<open>None\<close> when it does not return (or fetches a
  page the store does not hold).
\<close>

partial_function (option) Merge_loop ::
  "('k, 'v) ExtendibleHashTable \<Rightarrow> 'k \<Rightarrow> page_id_t \<Rightarrow> nat \<Rightarrow> ('k, 'v) ExtendibleHashTable option" where
  "Merge_loop t key bucket_page_id directory_idx =
     (case FetchBucketPage t bucket_page_id of
        None \<Rightarrow> None
      | Some bucket_page \<Rightarrow>
          if \<not> IsEmpty bucket_page then Some t
          else
            (let d = dir_page t;
                 local_depth = GetLocalDepth d directory_idx;
                 split_image_bucket_idx = GetSplitImageIndex d directory_idx
             in if local_depth \<le> 1 \<or> local_depth \<noteq> GetLocalDepth d split_image_bucket_idx then Some t
                else
                  (let t2 = Merge_round t bucket_page_id directory_idx split_image_bucket_idx
                   in Merge_loop t2 key (KeyToPageId t2 key (dir_page t2))
                        (KeyToDirectoryIndex t2 key (dir_page t2)))))"

declare Merge_loop.simps [code]

definition Merge :: "('k, 'v) ExtendibleHashTable \<Rightarrow> 'k \<Rightarrow> 'v \<Rightarrow> ('k, 'v) ExtendibleHashTable option" where
  "Merge t key val =
     (let d = dir_page t
      in Merge_loop t key (KeyToPageId t key d) (KeyToDirectoryIndex t key d))"

definition HT_Remove ::
  "('k::zero, 'v::zero) ExtendibleHashTable \<Rightarrow> 'k \<Rightarrow> 'v \<Rightarrow> (bool \<times> ('k, 'v) ExtendibleHashTable) option" where
  "HT_Remove t key val =
     (let d = dir_page t;
          bucket_page_id = KeyToPageId t key d
      in case FetchBucketPage t bucket_page_id of
           None \<Rightarrow> None
         | Some bucket_page \<Rightarrow>
             (case Remove bucket_page key val (comparator t) of
                (False, _) \<Rightarrow> Some (False, t)
              | (True, bucket_page') \<Rightarrow>
                  map_option (\<lambda>t'. (True, t')) (Merge (put_bucket t bucket_page_id bucket_page') key val)))"

section \<open>States and inputs the theorems are stated on\<close>

subsection \<open>Bucket pages\<close>

text \<open>
  The bucket pages a program can hold: the zeroed page of \<open>n\<close> slots, and whatever
  \<open>Insert\<close>, \<open>Remove\<close> and \<open>CopyMappingsAndResetPage\<close> make of such a page, with any
  keys, values, comparators and result vectors.
\<close>

inductive bucket_reachable :: "nat \<Rightarrow> ('k::zero, 'v::zero) bucket_page \<Rightarrow> bool" for n where
  reach_zero: "bucket_reachable n (zero_bucket n)"
| reach_Insert: "bucket_reachable n b \<Longrightarrow> bucket_reachable n (snd (Insert b key val cmp))"
| reach_Remove: "bucket_reachable n b \<Longrightarrow> bucket_reachable n (snd (Remove b key val cmp))"
| reach_Copy: "bucket_reachable n b \<Longrightarrow> bucket_reachable n (snd (CopyMappingsAndResetPage b result))"

text \<open>
  The invariant of a bucket page: the arrays have their declared lengths, a readable slot
  is occupied, and below an occupied slot every slot is occupied.
\<close>

definition bucket_inv :: "('k, 'v) bucket_page \<Rightarrow> bool" where
  "bucket_inv b \<longleftrightarrow>
     wf_bucket b \<and>
     (\<forall>i < BUCKET_ARRAY_SIZE b. IsReadable b i \<longrightarrow> IsOccupied b i) \<and>
     (\<forall>i < BUCKET_ARRAY_SIZE b. IsOccupied b i \<longrightarrow> (\<forall>j < i. IsOccupied b j))"

text \<open>The three-way comparison of integers, the comparator of the integer instantiation.\<close>

definition int_cmp :: "int \<Rightarrow> int \<Rightarrow> int" where
  "int_cmp a b = (if a < b then - 1 else if a > b then 1 else 0)"

text \<open>
  A page of two slots after \<open>Insert(5, 50)\<close>, \<open>Remove(5, 50)\<close> and \<open>Insert(7, 70)\<close>: slot 0
  holds \<open>(7, 70)\<close>, slot 1 was never used.
\<close>

definition example_bucket :: "(int, int) bucket_page" where
  "example_bucket =
     snd (Insert (snd (Remove (snd (Insert (zero_bucket 2) 5 50 int_cmp)) 5 50 int_cmp)) 7 70 int_cmp)"

subsection \<open>Buffer pool instances\<close>

text \<open>The disk before anything was written.\<close>

definition empty_disk :: disk where
  "empty_disk = (\<lambda>p. zero_data)"

text \<open>A frame holding page \<open>p\<close>, clean, with the given pin count.\<close>

definition clean_page :: "page_id_t \<Rightarrow> int \<Rightarrow> Page" where
  "clean_page p n = \<lparr>data = zero_data, page_id = p, pin_count = n, is_dirty = False\<rparr>"

text \<open>
  An instance of one frame that is not part of a parallel pool: as constructed, after
  \<open>NewPage\<close> (page 0 in frame 0, pinned once), and after \<open>UnpinPage(0, false)\<close> (pin count 0,
  frame 0 in the replacer).
\<close>

definition single_new :: BufferPoolManagerInstance where
  "single_new =
     \<lparr>pool_size = 1, num_instances = 1, instance_index = 0, next_page_id = 0,
      pages = [new_Page], page_table = Map.empty, free_list = [0], replacer = []\<rparr>"

definition single_pinned :: BufferPoolManagerInstance where
  "single_pinned =
     \<lparr>pool_size = 1, num_instances = 1, instance_index = 0, next_page_id = 1,
      pages = [clean_page 0 1], page_table = [0 \<mapsto> 0], free_list = [], replacer = []\<rparr>"

definition single_unpinned :: BufferPoolManagerInstance where
  "single_unpinned =
     \<lparr>pool_size = 1, num_instances = 1, instance_index = 0, next_page_id = 1,
      pages = [clean_page 0 0], page_table = [0 \<mapsto> 0], free_list = [], replacer = [0]\<rparr>"

subsection \<open>A parallel pool of two instances with two frames each\<close>

definition fresh_instance :: "nat \<Rightarrow> BufferPoolManagerInstance" where
  "fresh_instance i =
     \<lparr>pool_size = 2, num_instances = 2, instance_index = i, next_page_id = word_of_nat i,
      pages = [new_Page, new_Page], page_table = Map.empty, free_list = [0, 1], replacer = []\<rparr>"

definition instance0_one_page :: BufferPoolManagerInstance where
  "instance0_one_page =
     (fresh_instance 0)\<lparr>next_page_id := 2, pages := [new_Page, clean_page 0 1],
                         page_table := [0 \<mapsto> 1], free_list := [0]\<rparr>"

definition instance1_one_page :: BufferPoolManagerInstance where
  "instance1_one_page =
     (fresh_instance 1)\<lparr>next_page_id := 3, pages := [new_Page, clean_page 1 1],
                         page_table := [1 \<mapsto> 1], free_list := [0]\<rparr>"

definition instance0_two_pages :: BufferPoolManagerInstance where
  "instance0_two_pages =
     (fresh_instance 0)\<lparr>next_page_id := 4, pages := [clean_page 2 1, clean_page 0 1],
                         page_table := [0 \<mapsto> 1, 2 \<mapsto> 0], free_list := []\<rparr>"

text \<open>The pool as constructed, and after the first, second and third \<open>NewPage\<close>.\<close>

definition pool0 :: ParallelBufferPoolManager where
  "pool0 =
     \<lparr>par_num_instances = 2, par_pool_size = 2, next_index = 0,
      buffer_pool_manager_instances = [0 \<mapsto> fresh_instance 0, 1 \<mapsto> fresh_instance 1]\<rparr>"

definition pool1 :: ParallelBufferPoolManager where
  "pool1 =
     pool0\<lparr>buffer_pool_manager_instances := (buffer_pool_manager_instances pool0)(0 \<mapsto> instance0_one_page),
           next_index := 1\<rparr>"

definition pool2 :: ParallelBufferPoolManager where
  "pool2 =
     pool1\<lparr>buffer_pool_manager_instances := (buffer_pool_manager_instances pool1)(1 \<mapsto> instance1_one_page),
           next_index := 0\<rparr>"

definition pool3 :: ParallelBufferPoolManager where
  "pool3 =
     pool2\<lparr>buffer_pool_manager_instances := (buffer_pool_manager_instances pool2)(0 \<mapsto> instance0_two_pages),
           next_index := 1\<rparr>"

definition disk3 :: disk where
  "disk3 = empty_disk(0 := zero_data, 1 := zero_data, 2 := zero_data)"

subsection \<open>Runs of the lock manager\<close>

text \<open>
  A lock manager with an empty lock table, every transaction registered at the given
  isolation level, in state \<open>GROWING\<close> and holding nothing.
\<close>

definition new_LockManager :: "IsolationLevel \<Rightarrow> LockManager" where
  "new_LockManager lvl =
     \<lparr>lock_table = (\<lambda>rid. new_LockRequestQueue), txn_map = (\<lambda>t. new_Transaction lvl)\<rparr>"

datatype lock_op =
  OpLockShared txn_id_t RID | OpLockExclusive txn_id_t RID | OpLockUpgrade txn_id_t RID | OpUnlock txn_id_t RID

fun lock_step :: "LockManager \<Rightarrow> lock_op \<Rightarrow> lock_result \<times> LockManager" where
  "lock_step s (OpLockShared t rid) = LockShared s t rid"
| "lock_step s (OpLockExclusive t rid) = LockExclusive s t rid"
| "lock_step s (OpLockUpgrade t rid) = LockUpgrade s t rid"
| "lock_step s (OpUnlock t rid) = Unlock s t rid"

text \<open>The calls of a list one after the other, with the result of each.\<close>

fun lock_run :: "LockManager \<Rightarrow> lock_op list \<Rightarrow> lock_result list \<times> LockManager" where
  "lock_run s [] = ([], s)"
| "lock_run s (c # cs) =
     (case lock_step s c of (r, s') \<Rightarrow> (case lock_run s' cs of (rs, s'') \<Rightarrow> (r # rs, s'')))"

subsection \<open>Runs of the hash table\<close>

text \<open>
  A table over integer keys and values whose hash function is the key itself, with bucket
  pages of four slots, as constructed.
\<close>

definition table0 :: "(int, int) ExtendibleHashTable" where
  "table0 = new_ExtendibleHashTable (\<lambda>k. word_of_int k) int_cmp 4"

fun HT_Insert_all ::
  "('k::zero, 'v::zero) ExtendibleHashTable \<Rightarrow> ('k \<times> 'v) list \<Rightarrow>
     (bool list \<times> ('k, 'v) ExtendibleHashTable) option" where
  "HT_Insert_all t [] = Some ([], t)"
| "HT_Insert_all t ((k, v) # kvs) =
     (case HT_Insert t k v of
        None \<Rightarrow> None
      | Some (r, t') \<Rightarrow>
          (case HT_Insert_all t' kvs of None \<Rightarrow> None | Some (rs, t'') \<Rightarrow> Some (r # rs, t'')))"

fun HT_Remove_all ::
  "('k::zero, 'v::zero) ExtendibleHashTable \<Rightarrow> ('k \<times> 'v) list \<Rightarrow>
     (bool list \<times> ('k, 'v) ExtendibleHashTable) option" where
  "HT_Remove_all t [] = Some ([], t)"
| "HT_Remove_all t ((k, v) # kvs) =
     (case HT_Remove t k v of
        None \<Rightarrow> None
      | Some (r, t') \<Rightarrow>
          (case HT_Remove_all t' kvs of None \<Rightarrow> None | Some (rs, t'') \<Rightarrow> Some (r # rs, t'')))"

text \<open>The directory as the list of its slots, local depth and bucket page of each.\<close>

definition directory_slots :: "('k, 'v) ExtendibleHashTable \<Rightarrow> (nat \<times> page_id_t) list" where
  "directory_slots t =
     map (\<lambda>i. (local_depths (dir_page t) i, bucket_page_ids (dir_page t) i)) [0..<Dir_Size (dir_page t)]"

text \<open>
  The first seven insertions take the table to global depth 3: bucket page 1 at slot 0
  and page 4 at slot 4 with local depth 3, page 3 at slots 2 and 6 with local depth 2, and
  page 2 at the four odd slots with local depth 1.
\<close>

definition grow_keys :: "(int \<times> int) list" where
  "grow_keys = [(0, 100), (2, 102), (4, 104), (6, 106), (8, 108), (16, 116), (12, 112)]"

text \<open>
  The lock manager after transaction 1 took a shared lock on record \<open>(0, 1)\<close> and an
  exclusive lock on record \<open>(0, 2)\<close> under \<open>REPEATABLE_READ\<close>.
\<close>

definition after_two_locks :: LockManager where
  "after_two_locks = snd (lock_run (new_LockManager REPEATABLE_READ) [OpLockShared 1 (0, 1), OpLockExclusive 1 (0, 2)])"

section \<open>Bucket page: bitmaps, the occupied prefix and the scans\<close>

lemma IsOccupied_bit: "IsOccupied b i = bit (occupied b ! (i div 8)) (i mod 8)"
  by (simp add: IsOccupied_def CHAR_BIT_SIZE_def bit_iff_odd_drop_bit and_one_eq mod_2_eq_odd)

lemma IsReadable_bit: "IsReadable b i = bit (readable b ! (i div 8)) (i mod 8)"
  by (simp add: IsReadable_def CHAR_BIT_SIZE_def bit_iff_odd_drop_bit and_one_eq mod_2_eq_odd)

lemma same_slot: "i div 8 = j div 8 \<Longrightarrow> (i mod 8 = j mod 8) = (i = (j::nat))"
  by (metis div_mult_mod_eq)

lemma slot_in_bitmap: "i < n \<Longrightarrow> i div 8 < bitmap_len n"
  by (simp add: bitmap_len_def CHAR_BIT_SIZE_def)

lemma bit_set_8: "bit ((w::8 word) OR 2 ^ (i mod 8)) m = (bit w m \<or> m = i mod 8)"
  by (auto simp: bit_simps)

lemma bit_clear_8: "bit ((w::8 word) AND NOT (2 ^ (i mod 8))) m = (bit w m \<and> m \<noteq> i mod 8)"
  by (auto simp: bit_simps dest: bit_imp_le_length)

lemma IsOccupied_SetOccupied:
  assumes "i div 8 < length (occupied b)"
  shows "IsOccupied (SetOccupied b i) j = (j = i \<or> IsOccupied b j)"
proof (cases "j div 8 = i div 8")
  case True
  then show ?thesis
    using assms same_slot [of j i]
    by (auto simp: IsOccupied_bit SetOccupied_def CHAR_BIT_SIZE_def Let_def bit_set_8)
next
  case False
  then show ?thesis
    by (auto simp: IsOccupied_bit SetOccupied_def CHAR_BIT_SIZE_def Let_def)
qed

lemma IsReadable_SetReadable:
  assumes "i div 8 < length (readable b)"
  shows "IsReadable (SetReadable b i) j = (j = i \<or> IsReadable b j)"
proof (cases "j div 8 = i div 8")
  case True
  then show ?thesis
    using assms same_slot [of j i]
    by (auto simp: IsReadable_bit SetReadable_def CHAR_BIT_SIZE_def Let_def bit_set_8)
next
  case False
  then show ?thesis
    by (auto simp: IsReadable_bit SetReadable_def CHAR_BIT_SIZE_def Let_def)
qed

lemma IsReadable_RemoveAt:
  assumes "i div 8 < length (readable b)"
  shows "IsReadable (RemoveAt b i) j = (j \<noteq> i \<and> IsReadable b j)"
proof (cases "j div 8 = i div 8")
  case True
  then show ?thesis
    using assms same_slot [of j i]
    by (auto simp: IsReadable_bit RemoveAt_def CHAR_BIT_SIZE_def Let_def bit_clear_8)
next
  case False
  then show ?thesis
    by (auto simp: IsReadable_bit RemoveAt_def CHAR_BIT_SIZE_def Let_def)
qed

lemma IsOccupied_frame [simp]:
  "IsOccupied (SetReadable b i) j = IsOccupied b j"
  "IsOccupied (RemoveAt b i) j = IsOccupied b j"
  "IsOccupied (b\<lparr>array := a\<rparr>) j = IsOccupied b j"
  by (simp_all add: IsOccupied_def SetReadable_def RemoveAt_def Let_def)

lemma IsReadable_frame [simp]:
  "IsReadable (SetOccupied b i) j = IsReadable b j"
  "IsReadable (b\<lparr>array := a\<rparr>) j = IsReadable b j"
  by (simp_all add: IsReadable_def SetOccupied_def Let_def)

lemma fields_frame [simp]:
  "readable (SetOccupied b i) = readable b"
  "array (SetOccupied b i) = array b"
  "length (occupied (SetOccupied b i)) = length (occupied b)"
  "occupied (SetReadable b i) = occupied b"
  "array (SetReadable b i) = array b"
  "length (readable (SetReadable b i)) = length (readable b)"
  "occupied (RemoveAt b i) = occupied b"
  "array (RemoveAt b i) = array b"
  "length (readable (RemoveAt b i)) = length (readable b)"
  by (simp_all add: SetOccupied_def SetReadable_def RemoveAt_def Let_def)

lemma zero_bits:
  "i div 8 < m \<Longrightarrow> \<not> IsOccupied \<lparr>occupied = replicate m 0, readable = r, array = a\<rparr> i"
  "i div 8 < m \<Longrightarrow> \<not> IsReadable \<lparr>occupied = oc, readable = replicate m 0, array = a\<rparr> i"
  by (simp_all add: IsOccupied_bit IsReadable_bit)

lemma wf_slot:
  "wf_bucket b \<Longrightarrow> i < BUCKET_ARRAY_SIZE b \<Longrightarrow> i div 8 < length (occupied b) \<and> i div 8 < length (readable b)"
  by (simp add: wf_bucket_def slot_in_bitmap)

lemma Insert_loop_free_slot:
  "Insert_loop b key val cmp i fs = Some (Some f) \<Longrightarrow>
     fs = Some f \<or>
     (fs = None \<and> i \<le> f \<and> f < BUCKET_ARRAY_SIZE b \<and> \<not> IsReadable b f \<and>
      (\<forall>j. i \<le> j \<and> j < f \<longrightarrow> IsReadable b j))"
proof (induction b key val cmp i fs rule: Insert_loop.induct)
  case (1 b key val cmp i free_slot)
  show ?case
  proof (cases "i < BUCKET_ARRAY_SIZE b")
    case False
    with "1.prems" show ?thesis by (simp add: Insert_loop.simps [of b key val cmp i])
  next
    case inb: True
    show ?thesis
    proof (cases "IsReadable b i")
      case True
      with inb "1.prems" have
        nd: "\<not> (cmp (fst (array b ! i)) key = 0 \<and> snd (array b ! i) = val)" and
        rec: "Insert_loop b key val cmp (i + 1) free_slot = Some (Some f)"
        by (auto simp: Insert_loop.simps [of b key val cmp i] split: if_splits)
      from "1.IH"(1) [OF inb True nd rec] True show ?thesis
        by (auto simp: le_Suc_eq dest: Suc_leD) (metis Suc_leI le_neq_implies_less)
    next
      case nr: False
      show ?thesis
      proof (cases "free_slot = None")
        case True
        with inb nr "1.prems" have rec: "Insert_loop b key val cmp (i + 1) (Some i) = Some (Some f)"
          by (simp add: Insert_loop.simps [of b key val cmp i])
        from "1.IH"(2) [OF inb nr True rec] have "f = i" by auto
        with True inb nr show ?thesis by auto
      next
        case False
        with inb nr "1.prems" have rec: "Insert_loop b key val cmp (i + 1) free_slot = Some (Some f)"
          by (simp add: Insert_loop.simps [of b key val cmp i])
        from "1.IH"(3) [OF inb nr False rec] False show ?thesis by auto
      qed
    qed
  qed
qed

lemma Insert_cases:
  "Insert b key val cmp = (False, b) \<or>
   (\<exists>f < BUCKET_ARRAY_SIZE b. \<not> IsReadable b f \<and> (\<forall>j < f. IsReadable b j) \<and>
      Insert b key val cmp =
        (True, SetReadable (SetOccupied (b\<lparr>array := (array b)[f := (key, val)]\<rparr>) f) f))"
proof (cases "Insert_loop b key val cmp 0 None")
  case None
  then show ?thesis by (simp add: Insert_def)
next
  case (Some r)
  show ?thesis
  proof (cases r)
    case None
    with Some show ?thesis by (simp add: Insert_def)
  next
    case (Some f)
    with \<open>Insert_loop b key val cmp 0 None = Some r\<close>
    have l: "Insert_loop b key val cmp 0 None = Some (Some f)" by simp
    from Insert_loop_free_slot [OF l] l show ?thesis
      by (auto simp: Insert_def)
  qed
qed

lemma bucket_invD:
  assumes "bucket_inv b"
  shows "wf_bucket b"
    and "\<And>i. i < BUCKET_ARRAY_SIZE b \<Longrightarrow> IsReadable b i \<Longrightarrow> IsOccupied b i"
    and "\<And>i j. i < BUCKET_ARRAY_SIZE b \<Longrightarrow> IsOccupied b i \<Longrightarrow> j < i \<Longrightarrow> IsOccupied b j"
  using assms unfolding bucket_inv_def by blast+

lemma bucket_invI:
  assumes "wf_bucket b"
    and "\<And>i. i < BUCKET_ARRAY_SIZE b \<Longrightarrow> IsReadable b i \<Longrightarrow> IsOccupied b i"
    and "\<And>i j. i < BUCKET_ARRAY_SIZE b \<Longrightarrow> IsOccupied b i \<Longrightarrow> j < i \<Longrightarrow> IsOccupied b j"
  shows "bucket_inv b"
  using assms unfolding bucket_inv_def by blast

lemma bucket_inv_Insert:
  assumes "bucket_inv b"
  shows "bucket_inv (snd (Insert b key val cmp)) \<and>
         BUCKET_ARRAY_SIZE (snd (Insert b key val cmp)) = BUCKET_ARRAY_SIZE b"
proof -
  from Insert_cases [of b key val cmp] show ?thesis
  proof
    assume "Insert b key val cmp = (False, b)"
    with assms show ?thesis by simp
  next
    assume "\<exists>f < BUCKET_ARRAY_SIZE b. \<not> IsReadable b f \<and> (\<forall>j < f. IsReadable b j) \<and>
      Insert b key val cmp =
        (True, SetReadable (SetOccupied (b\<lparr>array := (array b)[f := (key, val)]\<rparr>) f) f)"
    then obtain f where f: "f < BUCKET_ARRAY_SIZE b" "\<And>j. j < f \<Longrightarrow> IsReadable b j"
      and eq: "Insert b key val cmp =
        (True, SetReadable (SetOccupied (b\<lparr>array := (array b)[f := (key, val)]\<rparr>) f) f)"
      by blast
    let ?b1 = "b\<lparr>array := (array b)[f := (key, val)]\<rparr>"
    let ?b2 = "SetOccupied ?b1 f"
    let ?b' = "SetReadable ?b2 f"
    note inv = bucket_invD [OF assms]
    from wf_slot [OF inv(1) f(1)] have len: "f div 8 < length (occupied b)" "f div 8 < length (readable b)"
      by simp_all
    have size: "BUCKET_ARRAY_SIZE ?b' = BUCKET_ARRAY_SIZE b"
      by (simp add: BUCKET_ARRAY_SIZE_def)
    have wf': "wf_bucket ?b'"
      using inv(1) by (simp add: wf_bucket_def BUCKET_ARRAY_SIZE_def)
    have occ: "IsOccupied ?b' j = (j = f \<or> IsOccupied b j)" for j
      using IsOccupied_SetOccupied [of f ?b1 j] len by simp
    have rd: "IsReadable ?b' j = (j = f \<or> IsReadable b j)" for j
      using IsReadable_SetReadable [of f ?b2 j] len by simp
    have "bucket_inv ?b'"
    proof (rule bucket_invI)
      show "wf_bucket ?b'" by (rule wf')
    next
      fix i assume "i < BUCKET_ARRAY_SIZE ?b'" "IsReadable ?b' i"
      then have "i < BUCKET_ARRAY_SIZE b" "i = f \<or> IsReadable b i"
        unfolding size rd by blast+
      then show "IsOccupied ?b' i"
        unfolding occ using inv(2) by blast
    next
      fix i j assume "i < BUCKET_ARRAY_SIZE ?b'" "IsOccupied ?b' i" "j < i"
      then have a: "i < BUCKET_ARRAY_SIZE b" "i = f \<or> IsOccupied b i" "j < i"
        unfolding size occ by blast+
      show "IsOccupied ?b' j"
      proof (cases "i = f")
        case True
        with a f(2) have "IsReadable b j" by simp
        moreover from a True have "j < BUCKET_ARRAY_SIZE b" by simp
        ultimately have "IsOccupied b j" by (rule inv(2) [rotated])
        then show ?thesis unfolding occ by blast
      next
        case False
        with a have "IsOccupied b i" by blast
        from inv(3) [OF a(1) this a(3)] show ?thesis unfolding occ by blast
      qed
    qed
    with eq size show ?thesis by simp
  qed
qed

lemma bucket_inv_Remove_loop:
  "bucket_inv b \<Longrightarrow>
     bucket_inv (snd (Remove_loop b key val cmp i)) \<and>
     BUCKET_ARRAY_SIZE (snd (Remove_loop b key val cmp i)) = BUCKET_ARRAY_SIZE b"
proof (induction b key val cmp i rule: Remove_loop.induct)
  case (1 b key val cmp i)
  note inv = bucket_invD [OF "1.prems"]
  show ?case
  proof (cases "i < BUCKET_ARRAY_SIZE b")
    case False
    then have "Remove_loop b key val cmp i = (False, b)"
      by (simp add: Remove_loop.simps [of b key val cmp i])
    with "1.prems" show ?thesis by simp
  next
    case inb: True
    show ?thesis
    proof (cases "IsOccupied b i")
      case False
      with inb have "Remove_loop b key val cmp i = (False, b)"
        by (simp add: Remove_loop.simps [of b key val cmp i])
      with "1.prems" show ?thesis by simp
    next
      case occ: True
      show ?thesis
      proof (cases "IsReadable b i \<and> cmp (fst (array b ! i)) key = 0 \<and> snd (array b ! i) = val")
        case False
        have "Remove_loop b key val cmp i = Remove_loop b key val cmp (i + 1)"
          by (subst Remove_loop.simps) (simp only: inb occ False if_True if_False not_not simp_thms)
        moreover have "\<not> \<not> IsOccupied b i" using occ by simp
        moreover have "\<not> (IsReadable b i \<and> IsOccupied b i \<and>
                         cmp (fst (array b ! i)) key = 0 \<and> snd (array b ! i) = val)"
          using False by blast
        note "1.IH" [OF inb \<open>\<not> \<not> IsOccupied b i\<close> this "1.prems"]
        ultimately show ?thesis by simp
      next
        case hit: True
        let ?b1 = "b\<lparr>array := (array b)[i := (0, 0)]\<rparr>"
        let ?b' = "RemoveAt ?b1 i"
        from inb occ hit have eq: "Remove_loop b key val cmp i = (True, ?b')"
          by (simp add: Remove_loop.simps [of b key val cmp i])
        from wf_slot [OF inv(1) inb] have len: "i div 8 < length (readable b)" by simp
        have rd: "IsReadable ?b' j = (j \<noteq> i \<and> IsReadable b j)" for j
          using IsReadable_RemoveAt [of i ?b1 j] len by simp
        have oc: "IsOccupied ?b' j = IsOccupied b j" for j
          by simp
        have size: "BUCKET_ARRAY_SIZE ?b' = BUCKET_ARRAY_SIZE b"
          by (simp add: BUCKET_ARRAY_SIZE_def)
        have wf': "wf_bucket ?b'"
          using inv(1) by (simp add: wf_bucket_def BUCKET_ARRAY_SIZE_def)
        have "bucket_inv ?b'"
        proof (rule bucket_invI)
          show "wf_bucket ?b'" by (rule wf')
        next
          fix j assume "j < BUCKET_ARRAY_SIZE ?b'" "IsReadable ?b' j"
          then have "j < BUCKET_ARRAY_SIZE b" "IsReadable b j"
            unfolding size rd by blast+
          then show "IsOccupied ?b' j" unfolding oc by (rule inv(2))
        next
          fix j l assume "j < BUCKET_ARRAY_SIZE ?b'" "IsOccupied ?b' j" "l < j"
          then show "IsOccupied ?b' l" unfolding size oc by (rule inv(3))
        qed
        with eq size show ?thesis by simp
      qed
    qed
  qed
qed

lemma bucket_inv_zero:
  "bucket_inv \<lparr>occupied = replicate (bitmap_len n) 0, readable = replicate (bitmap_len n) 0,
               array = replicate n ((0, 0) :: 'k::zero \<times> 'v::zero)\<rparr>"
  (is "bucket_inv ?z")
proof (rule bucket_invI)
  show "wf_bucket ?z" by (simp add: wf_bucket_def BUCKET_ARRAY_SIZE_def)
next
  fix i assume "i < BUCKET_ARRAY_SIZE ?z" "IsReadable ?z i"
  then have "i < n" "IsReadable ?z i" by (simp_all add: BUCKET_ARRAY_SIZE_def)
  with zero_bits(2) [OF slot_in_bitmap, of i n] show "IsOccupied ?z i" by blast
next
  fix i j assume "i < BUCKET_ARRAY_SIZE ?z" "IsOccupied ?z i" "j < i"
  then have "i < n" "IsOccupied ?z i" by (simp_all add: BUCKET_ARRAY_SIZE_def)
  with zero_bits(1) [OF slot_in_bitmap, of i n] show "IsOccupied ?z j" by blast
qed

lemma bucket_reachable_inv:
  "bucket_reachable n b \<Longrightarrow> bucket_inv b \<and> BUCKET_ARRAY_SIZE b = n"
proof (induction rule: bucket_reachable.induct)
  case reach_zero
  show ?case using bucket_inv_zero [of n] by (simp add: zero_bucket_def BUCKET_ARRAY_SIZE_def)
next
  case (reach_Insert b key val cmp)
  then show ?case using bucket_inv_Insert [of b key val cmp] by simp
next
  case (reach_Remove b key val cmp)
  then show ?case using bucket_inv_Remove_loop [of b key val cmp 0] by (simp add: Remove_def)
next
  case (reach_Copy b result)
  then have "wf_bucket b" "length (array b) = n"
    by (simp_all add: bucket_inv_def BUCKET_ARRAY_SIZE_def)
  then have "length (occupied b) = bitmap_len n" "length (readable b) = bitmap_len n" "length (array b) = n"
    by (simp_all add: wf_bucket_def BUCKET_ARRAY_SIZE_def)
  then show ?case
    using bucket_inv_zero [of n] by (simp add: CopyMappingsAndResetPage_def BUCKET_ARRAY_SIZE_def)
qed

lemma no_readable_after_hole:
  assumes "bucket_inv b" "\<not> IsOccupied b i" "i \<le> j" "j < BUCKET_ARRAY_SIZE b"
  shows "\<not> IsReadable b j"
proof
  assume "IsReadable b j"
  with bucket_invD(2) [OF assms(1) assms(4)] have oj: "IsOccupied b j" by simp
  show False
  proof (cases "i = j")
    case True
    with oj assms(2) show False by simp
  next
    case False
    with assms(3) have "i < j" by simp
    from bucket_invD(3) [OF assms(1) assms(4) oj this] assms(2) show False by simp
  qed
qed

lemma filter_upt_hole:
  assumes "bucket_inv b" "\<not> IsOccupied b i"
  shows "filter (\<lambda>j. IsReadable b j \<and> Q j) [i..<BUCKET_ARRAY_SIZE b] = []"
  using no_readable_after_hole [OF assms] by (auto simp: filter_empty_conv)

lemma GetValue_loop_full:
  "bucket_inv b \<Longrightarrow>
   GetValue_loop b key cmp i result =
           result @ map (\<lambda>j. snd (array b ! j))
                      (filter (\<lambda>j. IsReadable b j \<and> cmp (fst (array b ! j)) key = 0)
                         [i..<BUCKET_ARRAY_SIZE b])"
proof (induction b key cmp i result rule: GetValue_loop.induct)
  case (1 b key cmp i result)
  show ?case
  proof (cases "i < BUCKET_ARRAY_SIZE b")
    case False
    then show ?thesis by (simp add: GetValue_loop.simps [of b key cmp i])
  next
    case inb: True
    show ?thesis
    proof (cases "IsOccupied b i")
      case False
      have "GetValue_loop b key cmp i result = result"
        by (subst GetValue_loop.simps) (simp only: inb False if_True if_False not_not simp_thms)
      with filter_upt_hole [OF "1.prems" False] show ?thesis by simp
    next
      case True
      have step: "GetValue_loop b key cmp i result =
          GetValue_loop b key cmp (i + 1)
            (if IsReadable b i \<and> cmp (fst (array b ! i)) key = 0
             then result @ [snd (array b ! i)] else result)"
        by (subst GetValue_loop.simps) (simp only: inb True if_True if_False not_not simp_thms)
      have "\<not> \<not> IsOccupied b i" using True by simp
      note IH = "1.IH" [OF inb this "1.prems"]
      show ?thesis
        unfolding step IH using inb by (simp add: upt_conv_Cons)
    qed
  qed
qed

lemma CopyMappings_loop_full:
  "bucket_inv b \<Longrightarrow>
   CopyMappings_loop b i result =
           result @ map (\<lambda>j. array b ! j) (filter (\<lambda>j. IsReadable b j \<and> True) [i..<BUCKET_ARRAY_SIZE b])"
proof (induction b i result rule: CopyMappings_loop.induct)
  case (1 b i result)
  show ?case
  proof (cases "i < BUCKET_ARRAY_SIZE b")
    case False
    then show ?thesis by (simp add: CopyMappings_loop.simps [of b i])
  next
    case inb: True
    show ?thesis
    proof (cases "IsOccupied b i")
      case False
      have "CopyMappings_loop b i result = result"
        by (subst CopyMappings_loop.simps) (simp only: inb False if_True if_False not_not simp_thms)
      with filter_upt_hole [OF "1.prems" False, of "\<lambda>j. True"] show ?thesis by simp
    next
      case True
      have step: "CopyMappings_loop b i result =
          CopyMappings_loop b (i + 1) (if IsReadable b i then result @ [array b ! i] else result)"
        by (subst CopyMappings_loop.simps) (simp only: inb True if_True if_False not_not simp_thms)
      have "\<not> \<not> IsOccupied b i" using True by simp
      note IH = "1.IH" [OF inb this "1.prems"]
      show ?thesis
        unfolding step IH using inb by (simp add: upt_conv_Cons)
    qed
  qed
qed

lemma IsRepeat_loop_full:
  "bucket_inv b \<Longrightarrow>
   IsRepeat_loop b key val cmp i =
           (\<exists>j. i \<le> j \<and> j < BUCKET_ARRAY_SIZE b \<and> IsReadable b j \<and>
                cmp (fst (array b ! j)) key = 0 \<and> val = snd (array b ! j))"
proof (induction b key val cmp i rule: IsRepeat_loop.induct)
  case (1 b key val cmp i)
  show ?case
  proof (cases "i < BUCKET_ARRAY_SIZE b")
    case False
    then show ?thesis by (auto simp: IsRepeat_loop.simps [of b key val cmp i])
  next
    case inb: True
    show ?thesis
    proof (cases "IsOccupied b i")
      case False
      have "IsRepeat_loop b key val cmp i = False"
        by (subst IsRepeat_loop.simps) (simp only: inb False if_True if_False not_not simp_thms)
      with no_readable_after_hole [OF "1.prems" False] show ?thesis by blast
    next
      case occ: True
      show ?thesis
      proof (cases "IsReadable b i \<and> cmp (fst (array b ! i)) key = 0 \<and> val = snd (array b ! i)")
        case True
        have "IsRepeat_loop b key val cmp i = True"
          by (subst IsRepeat_loop.simps) (simp only: inb occ True if_True if_False not_not simp_thms)
        with True inb show ?thesis by blast
      next
        case False
        have step: "IsRepeat_loop b key val cmp i = IsRepeat_loop b key val cmp (i + 1)"
          by (subst IsRepeat_loop.simps) (simp only: inb occ False if_True if_False not_not simp_thms)
        have "\<not> \<not> IsOccupied b i" using occ by simp
        note IH = "1.IH" [OF inb this False "1.prems"]
        have "(\<exists>j. i \<le> j \<and> j < BUCKET_ARRAY_SIZE b \<and> IsReadable b j \<and>
                cmp (fst (array b ! j)) key = 0 \<and> val = snd (array b ! j)) =
              (\<exists>j. i + 1 \<le> j \<and> j < BUCKET_ARRAY_SIZE b \<and> IsReadable b j \<and>
                cmp (fst (array b ! j)) key = 0 \<and> val = snd (array b ! j))"
          using False by (metis Suc_eq_plus1 Suc_leI le_neq_implies_less Suc_leD)
        with step IH show ?thesis by simp
      qed
    qed
  qed
qed

lemma Remove_loop_full:
  "bucket_inv b \<Longrightarrow>
   fst (Remove_loop b key val cmp i) =
           (\<exists>j. i \<le> j \<and> j < BUCKET_ARRAY_SIZE b \<and> IsReadable b j \<and>
                cmp (fst (array b ! j)) key = 0 \<and> snd (array b ! j) = val)"
proof (induction b key val cmp i rule: Remove_loop.induct)
  case (1 b key val cmp i)
  show ?case
  proof (cases "i < BUCKET_ARRAY_SIZE b")
    case False
    then show ?thesis by (auto simp: Remove_loop.simps [of b key val cmp i])
  next
    case inb: True
    show ?thesis
    proof (cases "IsOccupied b i")
      case False
      have "Remove_loop b key val cmp i = (False, b)"
        by (subst Remove_loop.simps) (simp only: inb False if_True if_False not_not simp_thms)
      with no_readable_after_hole [OF "1.prems" False] show ?thesis by auto
    next
      case occ: True
      show ?thesis
      proof (cases "IsReadable b i \<and> cmp (fst (array b ! i)) key = 0 \<and> snd (array b ! i) = val")
        case True
        have "fst (Remove_loop b key val cmp i) = True"
          by (subst Remove_loop.simps) (simp only: inb occ True if_True if_False not_not simp_thms fst_conv)
        with True inb show ?thesis by blast
      next
        case False
        have step: "Remove_loop b key val cmp i = Remove_loop b key val cmp (i + 1)"
          by (subst Remove_loop.simps) (simp only: inb occ False if_True if_False not_not simp_thms)
        have n1: "\<not> \<not> IsOccupied b i" using occ by simp
        have n2: "\<not> (IsReadable b i \<and> IsOccupied b i \<and>
                      cmp (fst (array b ! i)) key = 0 \<and> snd (array b ! i) = val)"
          using False by blast
        note IH = "1.IH" [OF inb n1 n2 "1.prems"]
        have "(\<exists>j. i \<le> j \<and> j < BUCKET_ARRAY_SIZE b \<and> IsReadable b j \<and>
                cmp (fst (array b ! j)) key = 0 \<and> snd (array b ! j) = val) =
              (\<exists>j. i + 1 \<le> j \<and> j < BUCKET_ARRAY_SIZE b \<and> IsReadable b j \<and>
                cmp (fst (array b ! j)) key = 0 \<and> snd (array b ! j) = val)"
          using False by (metis Suc_eq_plus1 Suc_leI le_neq_implies_less Suc_leD)
        with step IH show ?thesis by simp
      qed
    qed
  qed
qed

lemma example_bucket_reachable: "bucket_reachable 2 example_bucket"
  unfolding example_bucket_def by (intro bucket_reachable.intros)

text \<open>
  C10.  In every bucket page reachable from the all-zero page by \<open>Insert\<close>, \<open>Remove\<close>
  and \<open>CopyMappingsAndResetPage\<close>, the occupied bits form a contiguous prefix of the
  slot array (below an occupied slot every slot is occupied) and every readable slot is
  occupied, so lies inside that prefix.  Consequently the scans that stop at the first
  slot that is not occupied see every readable entry: \<open>GetValue\<close> pushes the value of
  every readable slot of the page whose key matches, \<open>Remove\<close> and \<open>IsRepeat\<close> find the
  pair exactly when some readable slot of the page holds it, and
  \<open>CopyMappingsAndResetPage\<close> pushes the pair of every readable slot of the page.
\<close>

theorem bucket_scans_visit_readable_slots:
  assumes "bucket_reachable n b"
  shows "(\<forall>i < n. IsOccupied b i \<longrightarrow> (\<forall>j < i. IsOccupied b j)) \<and>
         (\<forall>i < n. IsReadable b i \<longrightarrow> IsOccupied b i) \<and>
         snd (GetValue b key cmp result) =
           result @ map (\<lambda>j. snd (array b ! j))
                      (filter (\<lambda>j. IsReadable b j \<and> cmp (fst (array b ! j)) key = 0) [0..<n]) \<and>
         fst (Remove b key val cmp) =
           (\<exists>j < n. IsReadable b j \<and> cmp (fst (array b ! j)) key = 0 \<and> snd (array b ! j) = val) \<and>
         IsRepeat b key val cmp =
           (\<exists>j < n. IsReadable b j \<and> cmp (fst (array b ! j)) key = 0 \<and> val = snd (array b ! j)) \<and>
         fst (CopyMappingsAndResetPage b pairs) =
           pairs @ map (\<lambda>j. array b ! j) (filter (IsReadable b) [0..<n])"
proof -
  from bucket_reachable_inv [OF assms] have inv: "bucket_inv b" and size: "BUCKET_ARRAY_SIZE b = n"
    by simp_all
  have "\<forall>i < n. IsOccupied b i \<longrightarrow> (\<forall>j < i. IsOccupied b j)"
    using bucket_invD(3) [OF inv] size by blast
  moreover have "\<forall>i < n. IsReadable b i \<longrightarrow> IsOccupied b i"
    using bucket_invD(2) [OF inv] size by blast
  moreover have "snd (GetValue b key cmp result) =
           result @ map (\<lambda>j. snd (array b ! j))
                      (filter (\<lambda>j. IsReadable b j \<and> cmp (fst (array b ! j)) key = 0) [0..<n])"
    using GetValue_loop_full [OF inv, of key cmp 0 result] size by (simp add: GetValue_def Let_def)
  moreover have "fst (Remove b key val cmp) =
           (\<exists>j < n. IsReadable b j \<and> cmp (fst (array b ! j)) key = 0 \<and> snd (array b ! j) = val)"
    using Remove_loop_full [OF inv, of key val cmp 0] size by (simp add: Remove_def)
  moreover have "IsRepeat b key val cmp =
           (\<exists>j < n. IsReadable b j \<and> cmp (fst (array b ! j)) key = 0 \<and> val = snd (array b ! j))"
    using IsRepeat_loop_full [OF inv, of key val cmp 0] size by (simp add: IsRepeat_def)
  moreover have "fst (CopyMappingsAndResetPage b pairs) =
           pairs @ map (\<lambda>j. array b ! j) (filter (IsReadable b) [0..<n])"
    using CopyMappings_loop_full [OF inv, of 0 pairs] size by (simp add: CopyMappingsAndResetPage_def)
  ultimately show ?thesis by blast
qed

theorem bucket_scans_visit_readable_slots_witness:
  "bucket_reachable 2 example_bucket \<and>
   IsOccupied example_bucket 0 \<and> \<not> IsOccupied example_bucket 1 \<and> IsReadable example_bucket 0 \<and>
   snd (GetValue example_bucket 7 int_cmp []) = [70] \<and>
   fst (Remove example_bucket 7 70 int_cmp) \<and>
   IsRepeat example_bucket 7 70 int_cmp \<and>
   fst (CopyMappingsAndResetPage example_bucket []) = [(7, 70)]"
proof -
  note r = example_bucket_reachable
  have bits: "IsOccupied example_bucket 0" "\<not> IsOccupied example_bucket 1"
    "IsReadable example_bucket 0" "\<not> IsReadable example_bucket 1"
    by code_simp+
  have arr: "array example_bucket ! 0 = (7, 70)" by code_simp
  have upt: "[0..<2] = [0, 1::nat]" by code_simp
  have c: "int_cmp 7 7 = 0" by code_simp
  have ex: "(\<exists>j<2. P j) = (P 0 \<or> P (1::nat))" for P
    by (metis One_nat_def less_2_cases_iff)
  from bucket_scans_visit_readable_slots [OF r, of 7 int_cmp "[]" 70 "[]"] bits arr c
  show ?thesis
    by (simp add: r upt ex)
qed

text \<open>
  C9, as amended.  For every reachable bucket page and every result vector, empty or
  not, \<open>GetValue\<close> appends to the vector the value of every readable slot whose key
  equals the key under the comparator, in slot order, and returns true exactly when the
  vector is not empty after the call; for a vector that is empty on entry that is exactly
  when a value was appended.
\<close>

theorem GetValue_appends_matching_values:
  assumes "bucket_reachable n b"
  shows "(let vs = map (\<lambda>j. snd (array b ! j))
                     (filter (\<lambda>j. IsReadable b j \<and> cmp (fst (array b ! j)) key = 0) [0..<n])
          in GetValue b key cmp result = (result @ vs \<noteq> [], result @ vs) \<and>
             (result = [] \<longrightarrow> fst (GetValue b key cmp result) = (vs \<noteq> [])))"
proof -
  from bucket_reachable_inv [OF assms] have inv: "bucket_inv b" and size: "BUCKET_ARRAY_SIZE b = n"
    by simp_all
  have eq: "GetValue_loop b key cmp 0 r =
              r @ map (\<lambda>j. snd (array b ! j))
                    (filter (\<lambda>j. IsReadable b j \<and> cmp (fst (array b ! j)) key = 0) [0..<n])" for r
    using GetValue_loop_full [OF inv, of key cmp 0 r] size by simp
  show ?thesis
    by (simp add: GetValue_def Let_def eq)
qed

theorem GetValue_appends_matching_values_witness:
  "bucket_reachable 2 example_bucket \<and>
   GetValue example_bucket 7 int_cmp [1] = (True, [1, 70]) \<and>
   GetValue example_bucket 5 int_cmp [1] = (True, [1]) \<and>
   GetValue example_bucket 5 int_cmp [] = (False, [])"
proof -
  note r = example_bucket_reachable
  have bits: "IsReadable example_bucket 0" "\<not> IsReadable example_bucket 1"
    by code_simp+
  have arr: "array example_bucket ! 0 = (7, 70)" by code_simp
  have upt: "[0..<2] = [0, 1::nat]" by code_simp
  have c: "int_cmp 7 7 = 0" "int_cmp 7 5 \<noteq> 0" by code_simp+
  from GetValue_appends_matching_values [OF r, of int_cmp 7 "[1]"]
    GetValue_appends_matching_values [OF r, of int_cmp 5 "[1]"]
    GetValue_appends_matching_values [OF r, of int_cmp 5 "[]"] bits arr c
  show ?thesis
    by (simp add: r upt Let_def)
qed

text \<open>
  C9 as stated fails for a vector that is not empty on entry: on the zeroed page of one
  slot, \<open>GetValue\<close> with the vector \<open>[5]\<close> appends nothing and returns true.
\<close>

theorem GetValue_flag_counterexample:
  "fst (GetValue (zero_bucket 1 :: (int, int) bucket_page) 0 int_cmp [5]) = True \<and>
   snd (GetValue (zero_bucket 1 :: (int, int) bucket_page) 0 int_cmp [5]) = [5]"
  by code_simp

section \<open>Lock manager\<close>

lemmas lock_manager_defs =
  new_LockManager_def new_LockRequestQueue_def new_Transaction_def new_LockRequest_def
  LockShared_def LockExclusive_def LockUpgrade_def Unlock_def NeedWait_def NeedWaitForUpgrade_def
  conflict_granted_def grant_all_def add_shared_def add_exclusive_def erase_shared_def
  erase_exclusive_def SetState_def set_queue_def set_upgrading_def erase_at_def INVALID_TXN_ID_def
  Let_def

lemma Unlock_state:
  "state (txn_map (snd (Unlock s t rid)) t) =
     (if fst (Unlock s t rid) = Returned True \<and> isolation_level (txn_map s t) = REPEATABLE_READ \<and>
         state (txn_map s t) = GROWING
      then SHRINKING else state (txn_map s t))"
  by (simp add: Unlock_def Let_def SetState_def set_queue_def erase_shared_def erase_exclusive_def
        split: option.splits)

text \<open>
  C8.  Under \<open>REPEATABLE_READ\<close>, an \<open>Unlock\<close> that succeeds moves a \<open>GROWING\<close>
  transaction to \<open>SHRINKING\<close>.  For a transaction that is \<open>SHRINKING\<close>, \<open>LockShared\<close> and
  \<open>LockExclusive\<close> throw \<open>TransactionAbortException\<close> with reason \<open>LOCK_ON_SHRINKING\<close> and
  leave the transaction \<open>ABORTED\<close>, and a further \<open>Unlock\<close> keeps it \<open>SHRINKING\<close>.
  Concretely, after \<open>LockShared(rid1)\<close>, \<open>LockExclusive(rid2)\<close> and \<open>Unlock(rid1)\<close>, which all
  return true, the transaction is \<open>SHRINKING\<close>, and \<open>LockShared(rid3)\<close> throws
  \<open>LOCK_ON_SHRINKING\<close> and sets the state to \<open>ABORTED\<close>.
\<close>

theorem two_phase_locking_repeatable_read:
  "(isolation_level (txn_map s t) = REPEATABLE_READ \<and> state (txn_map s t) = GROWING \<and>
      fst (Unlock s t rid) = Returned True
    \<longrightarrow> state (txn_map (snd (Unlock s t rid)) t) = SHRINKING) \<and>
   (isolation_level (txn_map s t) = REPEATABLE_READ \<and> state (txn_map s t) = SHRINKING
    \<longrightarrow> LockShared s t rid = (Threw LOCK_ON_SHRINKING, SetState s t ABORTED) \<and>
        LockExclusive s t rid = (Threw LOCK_ON_SHRINKING, SetState s t ABORTED) \<and>
        state (txn_map (SetState s t ABORTED) t) = ABORTED \<and>
        state (txn_map (snd (Unlock s t rid)) t) = SHRINKING) \<and>
   (case lock_run (new_LockManager REPEATABLE_READ)
           [OpLockShared 1 (0, 1), OpLockExclusive 1 (0, 2), OpUnlock 1 (0, 1)] of
      (rs, s3) \<Rightarrow>
        rs = [Returned True, Returned True, Returned True] \<and>
        state (txn_map s3 1) = SHRINKING \<and>
        fst (LockShared s3 1 (0, 3)) = Threw LOCK_ON_SHRINKING \<and>
        state (txn_map (snd (LockShared s3 1 (0, 3))) 1) = ABORTED)"
proof (intro conjI impI)
  assume "isolation_level (txn_map s t) = REPEATABLE_READ \<and> state (txn_map s t) = GROWING \<and>
      fst (Unlock s t rid) = Returned True"
  then show "state (txn_map (snd (Unlock s t rid)) t) = SHRINKING"
    by (simp add: Unlock_state)
next
  assume a: "isolation_level (txn_map s t) = REPEATABLE_READ \<and> state (txn_map s t) = SHRINKING"
  then show "LockShared s t rid = (Threw LOCK_ON_SHRINKING, SetState s t ABORTED)"
    by (simp add: LockShared_def)
  from a show "LockExclusive s t rid = (Threw LOCK_ON_SHRINKING, SetState s t ABORTED)"
    by (simp add: LockExclusive_def)
  show "state (txn_map (SetState s t ABORTED) t) = ABORTED"
    by (simp add: SetState_def)
  from a show "state (txn_map (snd (Unlock s t rid)) t) = SHRINKING"
    by (simp add: Unlock_state)
next
  show "case lock_run (new_LockManager REPEATABLE_READ)
           [OpLockShared 1 (0, 1), OpLockExclusive 1 (0, 2), OpUnlock 1 (0, 1)] of
      (rs, s3) \<Rightarrow>
        rs = [Returned True, Returned True, Returned True] \<and>
        state (txn_map s3 1) = SHRINKING \<and>
        fst (LockShared s3 1 (0, 3)) = Threw LOCK_ON_SHRINKING \<and>
        state (txn_map (snd (LockShared s3 1 (0, 3))) 1) = ABORTED"
    by (simp add: lock_manager_defs)
qed

theorem two_phase_locking_repeatable_read_witness:
  "isolation_level (txn_map after_two_locks 1) = REPEATABLE_READ \<and>
   state (txn_map after_two_locks 1) = GROWING \<and>
   fst (Unlock after_two_locks 1 (0, 1)) = Returned True \<and>
   state (txn_map (snd (Unlock after_two_locks 1 (0, 1))) 1) = SHRINKING \<and>
   LockShared (snd (Unlock after_two_locks 1 (0, 1))) 1 (0, 3) =
     (Threw LOCK_ON_SHRINKING, SetState (snd (Unlock after_two_locks 1 (0, 1))) 1 ABORTED) \<and>
   LockExclusive (snd (Unlock after_two_locks 1 (0, 1))) 1 (0, 3) =
     (Threw LOCK_ON_SHRINKING, SetState (snd (Unlock after_two_locks 1 (0, 1))) 1 ABORTED)"
proof -
  have h: "isolation_level (txn_map after_two_locks 1) = REPEATABLE_READ"
    "state (txn_map after_two_locks 1) = GROWING"
    "fst (Unlock after_two_locks 1 (0, 1)) = Returned True"
    by (simp_all add: after_two_locks_def lock_manager_defs)
  have iso: "isolation_level (txn_map (snd (Unlock after_two_locks 1 (0, 1))) 1) = REPEATABLE_READ"
    by (simp add: after_two_locks_def lock_manager_defs)
  from two_phase_locking_repeatable_read [of after_two_locks 1 "(0, 1)"] h
  have sh: "state (txn_map (snd (Unlock after_two_locks 1 (0, 1))) 1) = SHRINKING"
    by blast
  from two_phase_locking_repeatable_read [of "snd (Unlock after_two_locks 1 (0, 1))" 1 "(0, 3)"] iso sh
  have "LockShared (snd (Unlock after_two_locks 1 (0, 1))) 1 (0, 3) =
     (Threw LOCK_ON_SHRINKING, SetState (snd (Unlock after_two_locks 1 (0, 1))) 1 ABORTED) \<and>
   LockExclusive (snd (Unlock after_two_locks 1 (0, 1))) 1 (0, 3) =
     (Threw LOCK_ON_SHRINKING, SetState (snd (Unlock after_two_locks 1 (0, 1))) 1 ABORTED)"
    by blast
  with h sh show ?thesis by blast
qed

text \<open>
  C7.  The older transaction 1 and the younger transaction 2 hold granted shared locks on
  a record, and transaction 1 calls \<open>LockUpgrade\<close>.  When transaction 1 locked first, its
  request is at the head of the queue, the loop of \<open>NeedWaitForUpgrade\<close> ends at once, and
  the upgrade is granted with transaction 2 untouched: the queue then holds the granted
  exclusive request of transaction 1 and the granted shared request of transaction 2,
  transaction 2 is still \<open>GROWING\<close>, and its next lock call returns true.  When
  transaction 2 locked first, its request is removed, it is \<open>ABORTED\<close>, and its next lock
  call returns false.
\<close>

theorem LockUpgrade_spares_later_request:
  "(case lock_run (new_LockManager REPEATABLE_READ)
           [OpLockShared 1 (0, 0), OpLockShared 2 (0, 0), OpLockUpgrade 1 (0, 0)] of
      (rs, s) \<Rightarrow>
        rs = [Returned True, Returned True, Returned True] \<and>
        request_queue (lock_table s (0, 0)) =
          [\<lparr>txn_id = 1, lock_mode = EXCLUSIVE, granted = True\<rparr>,
           \<lparr>txn_id = 2, lock_mode = SHARED, granted = True\<rparr>] \<and>
        state (txn_map s 2) = GROWING \<and>
        (0, 0) \<in> exclusive_lock_set (txn_map s 1) \<and>
        (0, 0) \<in> shared_lock_set (txn_map s 2) \<and>
        fst (LockShared s 2 (0, 1)) = Returned True) \<and>
   (case lock_run (new_LockManager REPEATABLE_READ)
           [OpLockShared 2 (0, 0), OpLockShared 1 (0, 0), OpLockUpgrade 1 (0, 0)] of
      (rs, s) \<Rightarrow>
        rs = [Returned True, Returned True, Returned True] \<and>
        request_queue (lock_table s (0, 0)) = [\<lparr>txn_id = 1, lock_mode = EXCLUSIVE, granted = True\<rparr>] \<and>
        state (txn_map s 2) = ABORTED \<and>
        (0, 0) \<in> exclusive_lock_set (txn_map s 1) \<and>
        (0, 0) \<notin> shared_lock_set (txn_map s 1) \<and>
        fst (LockShared s 2 (0, 1)) = Returned False)"
  by (simp add: lock_manager_defs)

section \<open>Buffer pool instance\<close>

lemmas instance_defs =
  NewPgImp_def AllocatePage_def ValidatePageId_def take_frame_def Victim_def Pin_def Unpin_def
  Size_def map_insert_def WritePage_def ResetMemory_def new_Page_def clean_page_def Let_def
  INVALID_PAGE_ID_def UnpinPgImp_def DeletePgImp_def DeallocatePage_def

lemma single_new_constructed: "new_BufferPoolManagerInstance 1 1 0 = Some single_new"
  by (simp add: new_BufferPoolManagerInstance_def single_new_def)

lemma single_NewPgImp: "NewPgImp single_new d = Some (Some (0, 0), single_pinned, d(0 := zero_data))"
  by (simp add: instance_defs single_new_def single_pinned_def)

lemma single_UnpinPgImp: "UnpinPgImp single_pinned 0 False = (True, single_unpinned)"
  by (simp add: instance_defs single_pinned_def single_unpinned_def)

text \<open>
  C6.  An instance of one frame: \<open>NewPage\<close> gives page 0, \<open>UnpinPage(0, false)\<close> brings
  its pin count to 0.  A second \<open>UnpinPage(0, true)\<close> fails, the pin count being 0, and
  returns false, yet the page's dirty bit, false before the call, is true after it: the
  failed call does not leave the instance as it was.
\<close>

theorem UnpinPgImp_failure_sets_dirty:
  "new_BufferPoolManagerInstance 1 1 0 = Some single_new \<and>
   NewPgImp single_new empty_disk = Some (Some (0, 0), single_pinned, empty_disk(0 := zero_data)) \<and>
   UnpinPgImp single_pinned 0 False = (True, single_unpinned) \<and>
   page_table single_unpinned 0 = Some 0 \<and>
   pin_count (pages single_unpinned ! 0) = 0 \<and>
   is_dirty (pages single_unpinned ! 0) = False \<and>
   fst (UnpinPgImp single_unpinned 0 True) = False \<and>
   is_dirty (pages (snd (UnpinPgImp single_unpinned 0 True)) ! 0) = True \<and>
   snd (UnpinPgImp single_unpinned 0 True) \<noteq> single_unpinned"
proof -
  have "page_table single_unpinned 0 = Some 0 \<and>
        pin_count (pages single_unpinned ! 0) = 0 \<and>
        is_dirty (pages single_unpinned ! 0) = False"
    by (simp add: single_unpinned_def clean_page_def)
  moreover have d: "fst (UnpinPgImp single_unpinned 0 True) = False \<and>
        is_dirty (pages (snd (UnpinPgImp single_unpinned 0 True)) ! 0) = True"
    by (simp add: instance_defs single_unpinned_def)
  moreover have "snd (UnpinPgImp single_unpinned 0 True) \<noteq> single_unpinned"
  proof
    assume "snd (UnpinPgImp single_unpinned 0 True) = single_unpinned"
    with d have "is_dirty (pages single_unpinned ! 0) = True" by simp
    then show False by (simp add: single_unpinned_def clean_page_def)
  qed
  ultimately show ?thesis
    using single_new_constructed single_NewPgImp [of empty_disk] single_UnpinPgImp by simp
qed

text \<open>
  C5.  In the same instance, page 0 is resident and unpinned, and its frame 0 is in the
  replacer.  \<open>DeletePage(0)\<close> returns true and puts frame 0 on the free list, but does not
  take it out of the replacer: the frame is then in the free list and in the replacer at
  once.
\<close>

theorem DeletePgImp_leaves_frame_in_replacer:
  "new_BufferPoolManagerInstance 1 1 0 = Some single_new \<and>
   NewPgImp single_new empty_disk = Some (Some (0, 0), single_pinned, empty_disk(0 := zero_data)) \<and>
   UnpinPgImp single_pinned 0 False = (True, single_unpinned) \<and>
   page_table single_unpinned 0 = Some 0 \<and>
   pin_count (pages single_unpinned ! 0) = 0 \<and>
   free_list single_unpinned = [] \<and>
   replacer single_unpinned = [0] \<and>
   fst (DeletePgImp single_unpinned 0) = True \<and>
   free_list (snd (DeletePgImp single_unpinned 0)) = [0] \<and>
   replacer (snd (DeletePgImp single_unpinned 0)) = [0] \<and>
   pin_count (pages (snd (DeletePgImp single_unpinned 0)) ! 0) = 0"
proof -
  have "page_table single_unpinned 0 = Some 0 \<and>
        pin_count (pages single_unpinned ! 0) = 0 \<and>
        free_list single_unpinned = [] \<and> replacer single_unpinned = [0]"
    by (simp add: single_unpinned_def clean_page_def)
  moreover have "fst (DeletePgImp single_unpinned 0) = True \<and>
        free_list (snd (DeletePgImp single_unpinned 0)) = [0] \<and>
        replacer (snd (DeletePgImp single_unpinned 0)) = [0] \<and>
        pin_count (pages (snd (DeletePgImp single_unpinned 0)) ! 0) = 0"
    by (simp add: instance_defs single_unpinned_def)
  ultimately show ?thesis
    using single_new_constructed single_NewPgImp [of empty_disk] single_UnpinPgImp by simp
qed

section \<open>Parallel buffer pool\<close>

lemma pool0_constructed: "new_ParallelBufferPoolManager 2 2 = Some pool0"
  by (simp add: new_ParallelBufferPoolManager_def new_BufferPoolManagerInstance_def numeral_2_eq_2
        pool0_def fresh_instance_def)

lemma instance0_first: "NewPgImp (fresh_instance 0) d = Some (Some (0, 1), instance0_one_page, d(0 := zero_data))"
  by (simp add: instance_defs fresh_instance_def instance0_one_page_def)

lemma instance1_first: "NewPgImp (fresh_instance (Suc 0)) d = Some (Some (1, 1), instance1_one_page, d(1 := zero_data))"
  by (simp add: instance_defs fresh_instance_def instance1_one_page_def)

lemma instance0_second: "NewPgImp instance0_one_page d = Some (Some (2, 0), instance0_two_pages, d(2 := zero_data))"
  by (simp add: instance_defs fresh_instance_def instance0_one_page_def instance0_two_pages_def)

lemma pool_fuel:
  "par_num_instances pool0 = Suc (Suc 0)" "par_num_instances pool1 = Suc (Suc 0)"
  "par_num_instances pool2 = Suc (Suc 0)"
  by (simp_all add: pool0_def pool1_def pool2_def)

lemma pool_first: "Parallel_NewPgImp pool0 d = Some (Some (0, 0, 1), pool1, d(0 := zero_data))"
  unfolding Parallel_NewPgImp_def pool_fuel
  by (simp add: pool0_def pool1_def instance0_first)

lemma pool_second: "Parallel_NewPgImp pool1 d = Some (Some (1, 1, 1), pool2, d(1 := zero_data))"
  unfolding Parallel_NewPgImp_def pool_fuel
  by (simp add: pool0_def pool1_def pool2_def instance1_first)

lemma pool_third: "Parallel_NewPgImp pool2 d = Some (Some (2, 0, 0), pool3, d(2 := zero_data))"
  unfolding Parallel_NewPgImp_def pool_fuel
  by (simp add: pool0_def pool1_def pool2_def pool3_def instance0_second)

lemma pool3_route:
  "responsible_index pool3 2 = Some 2 \<and> GetBufferPoolManager pool3 2 = None \<and>
   Parallel_FetchPgImp pool3 d 2 = None \<and> Parallel_UnpinPgImp pool3 2 dirty = None \<and>
   Parallel_FlushPgImp pool3 d 2 = None \<and> Parallel_DeletePgImp pool3 2 = Some (True, pool3)"
  by (simp add: responsible_index_def GetPoolSize_def GetBufferPoolManager_def
       Parallel_FetchPgImp_def Parallel_UnpinPgImp_def Parallel_FlushPgImp_def Parallel_DeletePgImp_def
       pool0_def pool1_def pool2_def pool3_def)

text \<open>
  C1.  A parallel pool of two instances with two frames each.  Three \<open>NewPage\<close> calls
  give the pages 0, 1 and 2, allocated by the instances 0, 1 and 0: page 2 is resident in
  instance 0, and \<open>2 mod 2 = 0\<close>.  \<open>GetBufferPoolManager\<close> takes the identifier modulo
  \<open>GetPoolSize()\<close>, which is \<open>2 * 2 = 4\<close>, so for page 2 it reads the instance map at index 2,
  where there is no instance: \<open>FetchPage\<close>, \<open>UnpinPage\<close> and \<open>FlushPage\<close> of page 2 go
  through a null pointer, and \<open>DeletePage\<close> returns true without reaching instance 0.
\<close>

theorem parallel_pool_routes_by_pool_size:
  "new_ParallelBufferPoolManager 2 2 = Some pool0 \<and>
   Parallel_NewPgImp pool0 empty_disk = Some (Some (0, 0, 1), pool1, empty_disk(0 := zero_data)) \<and>
   Parallel_NewPgImp pool1 (empty_disk(0 := zero_data)) =
     Some (Some (1, 1, 1), pool2, empty_disk(0 := zero_data, 1 := zero_data)) \<and>
   Parallel_NewPgImp pool2 (empty_disk(0 := zero_data, 1 := zero_data)) = Some (Some (2, 0, 0), pool3, disk3) \<and>
   buffer_pool_manager_instances pool3 0 = Some instance0_two_pages \<and>
   page_table instance0_two_pages 2 = Some 0 \<and>
   responsible_index pool3 2 = Some 2 \<and>
   GetBufferPoolManager pool3 2 = None \<and>
   Parallel_FetchPgImp pool3 disk3 2 = None \<and>
   Parallel_UnpinPgImp pool3 2 False = None \<and>
   Parallel_FlushPgImp pool3 disk3 2 = None \<and>
   Parallel_DeletePgImp pool3 2 = Some (True, pool3)"
proof -
  have "buffer_pool_manager_instances pool3 0 = Some instance0_two_pages \<and>
        page_table instance0_two_pages 2 = Some 0"
    by (simp add: pool3_def instance0_two_pages_def)
  then show ?thesis
    using pool0_constructed pool_first pool_second pool_third pool3_route
    by (simp add: disk3_def)
qed

section \<open>Extendible hash table\<close>

text \<open>
  C4.  Bucket pages of four slots, the hash of a key is the key.  After the seven
  insertions that take the table to global depth 3, the keys 5, 13, 21 and 29 fill bucket
  page 2, which the four odd directory slots share at local depth 1.  \<open>Insert(37, 137)\<close>
  finds the bucket of slot 5 full and goes through \<open>SplitInsert\<close>, which returns true:
  it puts the pair into the new split image, page 5, because \<open>37 & 3 = 1\<close> differs from the
  directory index 5.  But slot 5, the slot of key 37, still points to page 2, so the
  \<open>GetValue(37)\<close> that follows finds nothing and returns false.
\<close>

theorem SplitInsert_inserts_out_of_reach:
  "(case HT_Insert_all table0 (grow_keys @ [(5, 105), (13, 113), (21, 121), (29, 129)]) of
      None \<Rightarrow> False
    | Some (rs, t) \<Rightarrow>
        rs = replicate 11 True \<and>
        global_depth (dir_page t) = 3 \<and>
        directory_slots t = [(3, 1), (1, 2), (2, 3), (1, 2), (3, 4), (1, 2), (2, 3), (1, 2)] \<and>
        (case HT_Insert t 37 137 of
           None \<Rightarrow> False
         | Some (r, t') \<Rightarrow>
             r = True \<and>
             HT_GetValue t' 37 [] = Some (False, []) \<and>
             KeyToDirectoryIndex t' 37 (dir_page t') = 5 \<and>
             directory_slots t' = [(3, 1), (1, 2), (2, 3), (2, 5), (3, 4), (2, 2), (2, 3), (2, 5)] \<and>
             map_option array (bucket_pages t' 5) = Some [(37, 137), (0, 0), (0, 0), (0, 0)]))"
  by code_simp

text \<open>
  C2.  The same table with the keys 1, 9, 17 and 25 in bucket page 2.
  \<open>Insert(33, 133)\<close> splits the bucket at directory index 1; the split image is index 3.
  Afterwards the slots 3 and 7, whose low two bits equal 3, point to the new page 5 with
  local depth 2, and slot 1 has local depth 2.  Slot 5, whose low two bits equal 1, keeps
  the old page 2 but still has local depth 1: only the split image's side is swept.
\<close>

theorem SplitInsert_leaves_old_side_depth:
  "(case HT_Insert_all table0 (grow_keys @ [(1, 101), (9, 109), (17, 117), (25, 125)]) of
      None \<Rightarrow> False
    | Some (rs, t) \<Rightarrow>
        rs = replicate 11 True \<and>
        global_depth (dir_page t) = 3 \<and>
        directory_slots t = [(3, 1), (1, 2), (2, 3), (1, 2), (3, 4), (1, 2), (2, 3), (1, 2)] \<and>
        KeyToDirectoryIndex t 33 (dir_page t) = 1 \<and>
        (case HT_Insert t 33 133 of
           None \<Rightarrow> False
         | Some (r, t') \<Rightarrow>
             GetSplitImageIndex (dir_page t') 1 = 3 \<and>
             directory_slots t' = [(3, 1), (2, 2), (2, 3), (2, 5), (3, 4), (1, 2), (2, 3), (2, 5)] \<and>
             GetLocalDepth (dir_page t') 1 = 2 \<and>
             GetBucketPageId (dir_page t') 5 = GetBucketPageId (dir_page t') 1 \<and>
             GetLocalDepth (dir_page t') 5 = 1))"
  by code_simp

end
